theory Spec2Isabelle
  imports Main "HOL-Library.Sublist"
begin

section \<open>Go strings\<close>

text \<open>
  A Go \<open>string\<close> is a sequence of bytes, modelled as \<open>string\<close> (a list of 8-bit
  characters).  The functions of package \<open>strings\<close> that the repository calls are written
  out below on bytes.  \<open>strings.TrimSpace\<close> removes the runes for which
  \<open>unicode.IsSpace\<close> holds; on the UTF-8 bytes these are the encodings listed in
  \<open>spaceRunes\<close>.
\<close>

definition HasPrefix :: "string \<Rightarrow> string \<Rightarrow> bool" where
  "HasPrefix s p = prefix p s"

definition HasSuffix :: "string \<Rightarrow> string \<Rightarrow> bool" where
  "HasSuffix s p = suffix p s"

definition TrimSuffix :: "string \<Rightarrow> string \<Rightarrow> string" where
  "TrimSuffix s p = (if HasSuffix s p then take (length s - length p) s else s)"

fun Index :: "string \<Rightarrow> string \<Rightarrow> nat option" where
  "Index [] sub = (if sub = [] then Some 0 else None)"
| "Index (c # cs) sub =
     (if prefix sub (c # cs) then Some 0 else map_option Suc (Index cs sub))"

definition Contains :: "string \<Rightarrow> string \<Rightarrow> bool" where
  "Contains s sub = (Index s sub \<noteq> None)"

text \<open>\<open>strings.Split(s, sep)\<close> for a one-byte separator: \<open>n\<close> separators give \<open>n + 1\<close> pieces.\<close>

fun Split :: "string \<Rightarrow> char \<Rightarrow> string list" where
  "Split [] sep = [[]]"
| "Split (c # cs) sep =
     (if c = sep then [] # Split cs sep
      else (case Split cs sep of [] \<Rightarrow> [[c]] | w # ws \<Rightarrow> (c # w) # ws))"

fun Join :: "string list \<Rightarrow> string \<Rightarrow> string" where
  "Join [] sep = []"
| "Join [x] sep = x"
| "Join (x # y # ys) sep = x @ sep @ Join (y # ys) sep"

text \<open>
  The UTF-8 encodings of U+0009..U+000D, U+0020, U+0085, U+00A0, U+1680, U+2000..U+200A,
  U+2028, U+2029, U+202F, U+205F and U+3000.
\<close>

definition spaceRunes :: "string list" where
  "spaceRunes =
    [[CHR 0x09], [CHR 0x0A], [CHR 0x0B], [CHR 0x0C], [CHR 0x0D], [CHR 0x20],
     [CHR 0xC2, CHR 0x85], [CHR 0xC2, CHR 0xA0], [CHR 0xE1, CHR 0x9A, CHR 0x80],
     [CHR 0xE2, CHR 0x80, CHR 0x80], [CHR 0xE2, CHR 0x80, CHR 0x81],
     [CHR 0xE2, CHR 0x80, CHR 0x82], [CHR 0xE2, CHR 0x80, CHR 0x83],
     [CHR 0xE2, CHR 0x80, CHR 0x84], [CHR 0xE2, CHR 0x80, CHR 0x85],
     [CHR 0xE2, CHR 0x80, CHR 0x86], [CHR 0xE2, CHR 0x80, CHR 0x87],
     [CHR 0xE2, CHR 0x80, CHR 0x88], [CHR 0xE2, CHR 0x80, CHR 0x89],
     [CHR 0xE2, CHR 0x80, CHR 0x8A], [CHR 0xE2, CHR 0x80, CHR 0xA8],
     [CHR 0xE2, CHR 0x80, CHR 0xA9], [CHR 0xE2, CHR 0x80, CHR 0xAF],
     [CHR 0xE2, CHR 0x81, CHR 0x9F], [CHR 0xE3, CHR 0x80, CHR 0x80]]"

text \<open>The number of bytes of the rune in \<open>rs\<close> that \<open>s\<close> starts with, \<open>0\<close> when there is none.\<close>

definition leadWidth :: "string list \<Rightarrow> string \<Rightarrow> nat" where
  "leadWidth rs s = (case find (\<lambda>r. prefix r s) rs of None \<Rightarrow> 0 | Some r \<Rightarrow> length r)"

function trimLead :: "string list \<Rightarrow> string \<Rightarrow> string" where
  "trimLead rs s =
     (if leadWidth rs s = 0 \<or> s = [] then s else trimLead rs (drop (leadWidth rs s) s))"
  by pat_completeness auto
termination
  by (relation "measure (\<lambda>(rs, s). length s)") auto

declare trimLead.simps [simp del]

definition TrimLeftSpace :: "string \<Rightarrow> string" where
  "TrimLeftSpace s = trimLead spaceRunes s"

definition TrimRightSpace :: "string \<Rightarrow> string" where
  "TrimRightSpace s = rev (trimLead (map rev spaceRunes) (rev s))"

definition TrimSpace :: "string \<Rightarrow> string" where
  "TrimSpace s = TrimRightSpace (TrimLeftSpace s)"

text \<open>\<open>strings.Trim(s, cutset)\<close> for a cutset of one-byte runes.\<close>

definition Trim :: "string \<Rightarrow> string \<Rightarrow> string" where
  "Trim s cutset =
     rev (dropWhile (\<lambda>c. c \<in> set cutset) (rev (dropWhile (\<lambda>c. c \<in> set cutset) s)))"

section \<open>Parameter normalisation\<close>

text \<open>The value \<open>{"type": "string", "description": ...}\<close> stored under a parameter name.\<close>

record Property =
  prop_type :: string
  prop_description :: string

text \<open>The value \<open>{"type": "object", "properties": ...}\<close> returned as the schema.\<close>

record ParamSchema =
  schema_type :: string
  schema_properties :: "string \<rightharpoonup> Property"

type_synonym paramState = "(string \<rightharpoonup> Property) \<times> string list"

definition mkProperty :: "string \<Rightarrow> Property" where
  "mkProperty paramName =
     \<lparr>prop_type = ''string'', prop_description = ''Parameter '' @ paramName\<rparr>"

definition mkSchema :: "paramState \<Rightarrow> ParamSchema \<times> string list" where
  "mkSchema st = (\<lparr>schema_type = ''object'', schema_properties = fst st\<rparr>, snd st)"

text \<open>One iteration of the loop of \<open>parsePythonParameters\<close> over \<open>paramList\<close>.\<close>

definition pyParamStep :: "paramState \<Rightarrow> string \<Rightarrow> paramState" where
  "pyParamStep st tok =
     (let properties = fst st; required = snd st; param = TrimSpace tok in
      if param = [] \<or> param = ''self'' then st
      else if HasPrefix param ''*'' then st
      else
        let paramName = (case Index param '':'' of
                           Some idx \<Rightarrow> TrimSpace (take idx param)
                         | None \<Rightarrow> param);
            hasDefault = Contains param ''='';
            required' = (if \<not> hasDefault then required @ [paramName] else required);
            properties' = (if paramName \<noteq> []
                           then properties(paramName \<mapsto> mkProperty paramName)
                           else properties)
        in (properties', required'))"

definition parsePythonParameters :: "string \<Rightarrow> ParamSchema \<times> string list" where
  "parsePythonParameters params =
     (if params = [] then mkSchema (Map.empty, [])
      else mkSchema (foldl pyParamStep (Map.empty, []) (Split params CHR '','')))"

text \<open>One iteration of the loop of \<open>parseJavaScriptParameters\<close> over \<open>paramList\<close>.\<close>

definition jsParamStep :: "paramState \<Rightarrow> string \<Rightarrow> paramState" where
  "jsParamStep st tok =
     (let properties = fst st; required = snd st; param = TrimSpace tok in
      if param = [] then st
      else if HasPrefix param ''...'' then st
      else
        let paramName0 = (case Index param '':'' of
                            Some idx \<Rightarrow> TrimSpace (take idx param)
                          | None \<Rightarrow> param);
            isOptional = HasSuffix paramName0 ''?'';
            paramName = (if isOptional then TrimSuffix paramName0 ''?'' else paramName0);
            hasDefault = Contains param ''='';
            required' = (if \<not> isOptional \<and> \<not> hasDefault then required @ [paramName]
                         else required);
            properties' = (if paramName \<noteq> []
                           then properties(paramName \<mapsto> mkProperty paramName)
                           else properties)
        in (properties', required'))"

definition parseJavaScriptParameters :: "string \<Rightarrow> ParamSchema \<times> string list" where
  "parseJavaScriptParameters params =
     (if params = [] then mkSchema (Map.empty, [])
      else mkSchema (foldl jsParamStep (Map.empty, []) (Split params CHR '','')))"


text \<open>
  The tokens that the loops do not skip: a Python token is kept when, trimmed, it is neither
  empty, nor \<open>self\<close>, nor starts with \<open>*\<close>; a JavaScript token when it is neither empty
  nor starts with \<open>...\<close>.  The variadic tokens are those starting with the marker.
\<close>

definition pyRetained :: "string \<Rightarrow> bool" where
  "pyRetained tok =
     (TrimSpace tok \<noteq> [] \<and> TrimSpace tok \<noteq> ''self'' \<and> \<not> HasPrefix (TrimSpace tok) ''*'')"

definition jsRetained :: "string \<Rightarrow> bool" where
  "jsRetained tok = (TrimSpace tok \<noteq> [] \<and> \<not> HasPrefix (TrimSpace tok) ''...'')"

definition pyVariadic :: "string \<Rightarrow> bool" where
  "pyVariadic tok = HasPrefix (TrimSpace tok) ''*''"

definition jsVariadic :: "string \<Rightarrow> bool" where
  "jsVariadic tok = HasPrefix (TrimSpace tok) ''...''"

definition markerFree :: "string \<Rightarrow> paramState \<Rightarrow> bool" where
  "markerFree m st =
     ((\<forall>k\<in>dom (fst st). \<not> HasPrefix k m) \<and> (\<forall>r\<in>set (snd st). \<not> HasPrefix r m))"


section \<open>Documentation association\<close>

text \<open>
  The loop of \<open>extractJSDocComment\<close>, \<open>for i := lineNum - 1; i >= 0; i--\<close>: the second
  argument is \<open>i + 1\<close>, the third the \<open>commentLines\<close> gathered so far.  New content is put
  in front: the scan runs upwards, so the result lists the comment from its top line down.
\<close>

fun jsdocLoop :: "string list \<Rightarrow> nat \<Rightarrow> string list \<Rightarrow> string list" where
  "jsdocLoop lines 0 commentLines = commentLines"
| "jsdocLoop lines (Suc i) commentLines =
     (let line = TrimSpace (lines ! i) in
      if line = [] then jsdocLoop lines i commentLines
      else if HasPrefix line ''*/'' then jsdocLoop lines i commentLines
      else if HasPrefix line ''*'' then
        (let content = TrimSpace (drop 1 line) in
         jsdocLoop lines i (if content \<noteq> [] then content # commentLines else commentLines))
      else if HasPrefix line ''/**'' then
        (let content = TrimSpace (drop 3 line) in
         if content \<noteq> [] \<and> \<not> HasSuffix content ''*/'' then content # commentLines
         else commentLines)
      else commentLines)"

text \<open>
  \<open>lines[i]\<close> with \<open>i = lineNum - 1 \<ge> len(lines)\<close> is a run-time panic (index out of
  range); the result \<open>None\<close> stands for it.
\<close>

definition extractJSDocComment :: "string list \<Rightarrow> nat \<Rightarrow> string option" where
  "extractJSDocComment lines lineNum =
     (if length lines < lineNum then None
      else Some (Join (jsdocLoop lines lineNum []) '' ''))"

text \<open>The same scan, on the list of the lines above the header, nearest line first.\<close>

fun jsdocScan :: "string list \<Rightarrow> string list \<Rightarrow> string list" where
  "jsdocScan [] commentLines = commentLines"
| "jsdocScan (l # up) commentLines =
     (let line = TrimSpace l in
      if line = [] then jsdocScan up commentLines
      else if HasPrefix line ''*/'' then jsdocScan up commentLines
      else if HasPrefix line ''*'' then
        (let content = TrimSpace (drop 1 line) in
         jsdocScan up (if content \<noteq> [] then content # commentLines else commentLines))
      else if HasPrefix line ''/**'' then
        (let content = TrimSpace (drop 3 line) in
         if content \<noteq> [] \<and> \<not> HasSuffix content ''*/'' then content # commentLines
         else commentLines)
      else commentLines)"

text \<open>
  A blank line is one that trims to the empty string; a non-comment line is a non-blank line
  that starts neither with \<open>*\<close> (which covers \<open>*/\<close>) nor with \<open>/**\<close>.
\<close>

definition blankLine :: "string \<Rightarrow> bool" where
  "blankLine l = (TrimSpace l = [])"

definition nonCommentLine :: "string \<Rightarrow> bool" where
  "nonCommentLine l =
     (TrimSpace l \<noteq> [] \<and> \<not> HasPrefix (TrimSpace l) ''*'' \<and> \<not> HasPrefix (TrimSpace l) ''/**'')"

text \<open>
  \<open>extractPythonDocstring\<close>: the loop \<open>for i := startLine + 1; i < len(lines); i++\<close>
  runs over \<open>drop (startLine + 1) lines\<close>; it stops at the first line that contains the
  quote, keeping what precedes the quote on that line when the quote is not at column 0.
\<close>

fun docLoop :: "string list \<Rightarrow> string \<Rightarrow> string list \<Rightarrow> string list" where
  "docLoop [] quote docLines = docLines"
| "docLoop (line # rest) quote docLines =
     (case Index line quote of
        Some endIdx \<Rightarrow> if 0 < endIdx then docLines @ [take endIdx line] else docLines
      | None \<Rightarrow> docLoop rest quote (docLines @ [line]))"

definition extractPythonDocstring :: "string list \<Rightarrow> nat \<Rightarrow> string" where
  "extractPythonDocstring lines startLine =
     (if length lines \<le> startLine then []
      else
        let line = TrimSpace (lines ! startLine) in
        if HasPrefix line ''\"\"\"'' \<or> HasPrefix line [CHR 0x27, CHR 0x27, CHR 0x27] then
          let quote = take 3 line in
          if 6 < length line \<and> HasSuffix line quote
          then Trim (take (length line - 6) (drop 3 line)) [CHR 0x20, CHR 0x09]
          else
            let docLines = (if 3 < length line then [drop 3 line] else []) in
            TrimSpace (Join (docLoop (drop (Suc startLine) lines) quote docLines) [CHR 0x0A])
        else [])"

text \<open>
  What each line gives to the scan.  The scan passes a blank line and a line starting with
  \<open>*\<close>; a line starting with \<open>*\<close> but not with \<open>*/\<close> gives its content when that is
  not empty.  The first line that is not passed ends the scan; if it starts with \<open>/**\<close> it
  gives its content, unless that is empty or ends with \<open>*/\<close>.
\<close>

definition passLine :: "string \<Rightarrow> bool" where
  "passLine l = (TrimSpace l = [] \<or> HasPrefix (TrimSpace l) ''*'')"

definition starContent :: "string \<Rightarrow> string list" where
  "starContent l =
     (let line = TrimSpace l in
      if line = [] \<or> HasPrefix line ''*/'' \<or> \<not> HasPrefix line ''*'' then []
      else if TrimSpace (drop 1 line) \<noteq> [] then [TrimSpace (drop 1 line)] else [])"

definition openerContent :: "string \<Rightarrow> string list" where
  "openerContent l =
     (let line = TrimSpace l in
      if HasPrefix line ''/**'' \<and> TrimSpace (drop 3 line) \<noteq> [] \<and>
         \<not> HasSuffix (TrimSpace (drop 3 line)) ''*/''
      then [TrimSpace (drop 3 line)] else [])"

definition stopContent :: "string list \<Rightarrow> string list" where
  "stopContent rest = (case rest of [] \<Rightarrow> [] | l # _ \<Rightarrow> openerContent l)"

text \<open>
  The comment lines that a scan over \<open>up\<close> (nearest line first) gathers, top line first.
\<close>

definition gathered :: "string list \<Rightarrow> string list" where
  "gathered up =
     stopContent (dropWhile passLine up) @ concat (map starContent (rev (takeWhile passLine up)))"


section \<open>Regular expressions\<close>

text \<open>
  The five patterns of the scanners, in the syntax of Go's \<open>regexp\<close>, use literals, the
  classes \<open>\s\<close>, \<open>\w\<close> and \<open>.\<close> under \<open>+\<close>, \<open>*\<close> and \<open>*?\<close>, groups, and
  optional non-capturing groups.  \<open>regex\<close> has a constructor for each.  All patterns start
  with \<open>^\<close>, so a match starts at offset 0.

  Go returns the match that a backtracking search finds first.  \<open>rmatch\<close> lists every way
  a pattern matches a prefix of the input, in the order in which backtracking tries them:
  a greedy repetition offers its longest run first, a lazy one its shortest, an optional
  group is tried before it is left out.  The head of the list is Go's match.

  The classes are classes of ASCII bytes. \<open>.\<close> is every rune but the newline; it is taken
  byte by byte here, which gives the same matches, as every literal that follows a \<open>.*?\<close>
  in the patterns is ASCII and an ASCII byte is never part of a longer rune.
\<close>

datatype cclass = Space | Word | AnyChar

fun inClass :: "cclass \<Rightarrow> char \<Rightarrow> bool" where
  "inClass Space c = (c \<in> set [CHR 0x09, CHR 0x0A, CHR 0x0C, CHR 0x0D, CHR 0x20])"
| "inClass Word c =
     (c \<in> set ''0123456789ABCDEFGHIJKLMNOPQRSTUVWXYZ_abcdefghijklmnopqrstuvwxyz'')"
| "inClass AnyChar c = (c \<noteq> CHR 0x0A)"

datatype regex =
    Lit string
  | Plus cclass
  | Star cclass
  | LazyStar cclass
  | Opt regex
  | Cat regex regex
  | Group nat regex

fun seq :: "regex list \<Rightarrow> regex" where
  "seq [] = Lit []"
| "seq [r] = r"
| "seq (r # rs) = Cat r (seq rs)"

text \<open>The inputs left after a run of bytes of the class, longest run first.\<close>

fun greedyRun :: "cclass \<Rightarrow> string \<Rightarrow> string list" where
  "greedyRun k [] = [[]]"
| "greedyRun k (x # xs) = (if inClass k x then greedyRun k xs @ [x # xs] else [x # xs])"

text \<open>The same, shortest run first.\<close>

fun lazyRun :: "cclass \<Rightarrow> string \<Rightarrow> string list" where
  "lazyRun k [] = [[]]"
| "lazyRun k (x # xs) = (x # xs) # (if inClass k x then lazyRun k xs else [])"

text \<open>A matcher state: the input left, and the text of the groups closed so far.\<close>

type_synonym mstate = "string \<times> (nat \<times> string) list"

fun rmatch :: "regex \<Rightarrow> mstate \<Rightarrow> mstate list" where
  "rmatch (Lit w) (s, caps) = (if prefix w s then [(drop (length w) s, caps)] else [])"
| "rmatch (Plus k) (s, caps) =
     (case s of
        [] \<Rightarrow> []
      | x # xs \<Rightarrow> if inClass k x then map (\<lambda>r. (r, caps)) (greedyRun k xs) else [])"
| "rmatch (Star k) (s, caps) = map (\<lambda>r. (r, caps)) (greedyRun k s)"
| "rmatch (LazyStar k) (s, caps) = map (\<lambda>r. (r, caps)) (lazyRun k s)"
| "rmatch (Opt r) st = rmatch r st @ [st]"
| "rmatch (Cat r1 r2) st = concat (map (rmatch r2) (rmatch r1 st))"
| "rmatch (Group n r) (s, caps) =
     map (\<lambda>st'. (fst st', (n, take (length s - length (fst st')) s) # snd st'))
       (rmatch r (s, caps))"

text \<open>
  \<open>FindStringSubmatch\<close>: \<open>None\<close> is Go's \<open>nil\<close>; otherwise the function gives the text
  of group \<open>n\<close>, the empty string for a group that took no part in the match.
\<close>

definition FindStringSubmatch :: "regex \<Rightarrow> string \<Rightarrow> (nat \<Rightarrow> string) option" where
  "FindStringSubmatch re s =
     (case rmatch re (s, []) of
        [] \<Rightarrow> None
      | st # _ \<Rightarrow> Some (\<lambda>n. case map_of (snd st) n of None \<Rightarrow> [] | Some g \<Rightarrow> g))"

text \<open>\<open>^def\s+(\w+)\s*\((.*?)\)\s*(?:->.*?)?:\<close>\<close>

definition pyFuncRe :: regex where
  "pyFuncRe =
     seq [Lit ''def'', Plus Space, Group 1 (Plus Word), Star Space, Lit ''('',
          Group 2 (LazyStar AnyChar), Lit '')'', Star Space,
          Opt (seq [Lit ''->'', LazyStar AnyChar]), Lit '':'']"

text \<open>\<open>^class\s+(\w+)(?:\(.*?\))?:\<close>\<close>

definition pyClassRe :: regex where
  "pyClassRe =
     seq [Lit ''class'', Plus Space, Group 1 (Plus Word),
          Opt (seq [Lit ''('', LazyStar AnyChar, Lit '')'']), Lit '':'']"

text \<open>\<open>^(?:export\s+)?(?:async\s+)?function\s+(\w+)\s*\((.*?)\)(?:\s*:\s*.*?)?\<close>\<close>

definition jsFuncRe :: regex where
  "jsFuncRe =
     seq [Opt (seq [Lit ''export'', Plus Space]), Opt (seq [Lit ''async'', Plus Space]),
          Lit ''function'', Plus Space, Group 1 (Plus Word), Star Space, Lit ''('',
          Group 2 (LazyStar AnyChar), Lit '')'',
          Opt (seq [Star Space, Lit '':'', Star Space, LazyStar AnyChar])]"

text \<open>\<open>^(?:export\s+)?const\s+(\w+)\s*=\s*(?:async\s+)?\((.*?)\)(?:\s*:\s*.*?)?\s*=>\<close>\<close>

definition jsArrowRe :: regex where
  "jsArrowRe =
     seq [Opt (seq [Lit ''export'', Plus Space]), Lit ''const'', Plus Space,
          Group 1 (Plus Word), Star Space, Lit ''='', Star Space,
          Opt (seq [Lit ''async'', Plus Space]), Lit ''('',
          Group 2 (LazyStar AnyChar), Lit '')'',
          Opt (seq [Star Space, Lit '':'', Star Space, LazyStar AnyChar]),
          Star Space, Lit ''=>'']"

text \<open>
  \<open>^(?:export\s+)?(?:abstract\s+)?class\s+(\w+)(?:\s+extends\s+\w+)?(?:\s+implements\s+.*?)?\<close>
\<close>

definition jsClassRe :: regex where
  "jsClassRe =
     seq [Opt (seq [Lit ''export'', Plus Space]), Opt (seq [Lit ''abstract'', Plus Space]),
          Lit ''class'', Plus Space, Group 1 (Plus Word),
          Opt (seq [Plus Space, Lit ''extends'', Plus Space, Plus Word]),
          Opt (seq [Plus Space, Lit ''implements'', Plus Space, LazyStar AnyChar])]"

section \<open>Declaration scanners\<close>

text \<open>
  \<open>Parameters\<close> is \<open>None\<close> for the nil map of a class record; a nil and an empty
  \<open>Required\<close> slice are both \<open>[]\<close>.
\<close>

record FunctionSignature =
  Name :: string
  Type :: string
  Signature :: string
  Description :: string
  Parameters :: "ParamSchema option"
  Required :: "string list"

text \<open>
  The body of the loop of \<open>extractPythonSignatures\<close> at index \<open>i\<close>, in two parts: the
  block for function definitions, which on a private name leaves the iteration
  (\<open>continue\<close>), and the block for class definitions that follows it.
\<close>

definition pyClassPart ::
  "string list \<Rightarrow> nat \<Rightarrow> string \<Rightarrow> FunctionSignature list \<Rightarrow> FunctionSignature list" where
  "pyClassPart lines i line signatures =
     (case FindStringSubmatch pyClassRe line of
        None \<Rightarrow> signatures
      | Some classMatch \<Rightarrow>
          let name = classMatch 1 in
          if HasPrefix name ''_'' then signatures
          else
            let docstring = extractPythonDocstring lines (i + 1) in
            signatures @
              [\<lparr>Name = name, Type = ''class'', Signature = line, Description = docstring,
                Parameters = None, Required = []\<rparr>])"

definition pyLineStep ::
  "string list \<Rightarrow> FunctionSignature list \<Rightarrow> nat \<Rightarrow> FunctionSignature list" where
  "pyLineStep lines signatures i =
     (let line = TrimSpace (lines ! i) in
      case FindStringSubmatch pyFuncRe line of
        None \<Rightarrow> pyClassPart lines i line signatures
      | Some funcMatch \<Rightarrow>
          let name = funcMatch 1; params = funcMatch 2 in
          if HasPrefix name ''_'' then signatures
          else
            let docstring = extractPythonDocstring lines (i + 1);
                pr = parsePythonParameters params
            in pyClassPart lines i line
                 (signatures @
                    [\<lparr>Name = name, Type = ''function'', Signature = line,
                      Description = docstring, Parameters = Some (fst pr),
                      Required = snd pr\<rparr>]))"

text \<open>
  The error result of the two extractors is \<open>nil\<close> on every path and is left out.
\<close>

definition extractPythonSignatures :: "string \<Rightarrow> FunctionSignature list" where
  "extractPythonSignatures code =
     (let lines = Split code CHR 0x0A in
      foldl (pyLineStep lines) [] [0..<length lines])"

text \<open>
  The loop of \<open>extractJavaScriptSignatures\<close> has three blocks; each leaves the iteration
  on a private name.  \<open>None\<close> is the panic of \<open>extractJSDocComment\<close>.
\<close>

definition jsClassPart ::
  "string list \<Rightarrow> nat \<Rightarrow> string \<Rightarrow> FunctionSignature list \<Rightarrow> FunctionSignature list option"
  where
  "jsClassPart lines i line signatures =
     (case FindStringSubmatch jsClassRe line of
        None \<Rightarrow> Some signatures
      | Some classMatch \<Rightarrow>
          let name = classMatch 1 in
          if HasPrefix name ''_'' then Some signatures
          else
            (case extractJSDocComment lines i of
               None \<Rightarrow> None
             | Some jsdoc \<Rightarrow>
                 Some (signatures @
                   [\<lparr>Name = name, Type = ''class'', Signature = line, Description = jsdoc,
                     Parameters = None, Required = []\<rparr>])))"

definition jsArrowPart ::
  "string list \<Rightarrow> nat \<Rightarrow> string \<Rightarrow> FunctionSignature list \<Rightarrow> FunctionSignature list option"
  where
  "jsArrowPart lines i line signatures =
     (case FindStringSubmatch jsArrowRe line of
        None \<Rightarrow> jsClassPart lines i line signatures
      | Some arrowMatch \<Rightarrow>
          let name = arrowMatch 1; params = arrowMatch 2 in
          if HasPrefix name ''_'' then Some signatures
          else
            (case extractJSDocComment lines i of
               None \<Rightarrow> None
             | Some jsdoc \<Rightarrow>
                 let pr = parseJavaScriptParameters params in
                 jsClassPart lines i line
                   (signatures @
                      [\<lparr>Name = name, Type = ''function'', Signature = line,
                        Description = jsdoc, Parameters = Some (fst pr),
                        Required = snd pr\<rparr>])))"

definition jsFuncPart ::
  "string list \<Rightarrow> nat \<Rightarrow> string \<Rightarrow> FunctionSignature list \<Rightarrow> FunctionSignature list option"
  where
  "jsFuncPart lines i line signatures =
     (case FindStringSubmatch jsFuncRe line of
        None \<Rightarrow> jsArrowPart lines i line signatures
      | Some funcMatch \<Rightarrow>
          let name = funcMatch 1; params = funcMatch 2 in
          if HasPrefix name ''_'' then Some signatures
          else
            (case extractJSDocComment lines i of
               None \<Rightarrow> None
             | Some jsdoc \<Rightarrow>
                 let pr = parseJavaScriptParameters params in
                 jsArrowPart lines i line
                   (signatures @
                      [\<lparr>Name = name, Type = ''function'', Signature = line,
                        Description = jsdoc, Parameters = Some (fst pr),
                        Required = snd pr\<rparr>])))"

definition jsLineStep ::
  "string list \<Rightarrow> FunctionSignature list option \<Rightarrow> nat \<Rightarrow> FunctionSignature list option"
  where
  "jsLineStep lines st i =
     (case st of
        None \<Rightarrow> None
      | Some signatures \<Rightarrow> jsFuncPart lines i (TrimSpace (lines ! i)) signatures)"

definition extractJavaScriptSignatures :: "string \<Rightarrow> FunctionSignature list option" where
  "extractJavaScriptSignatures code =
     (let lines = Split code CHR 0x0A in
      foldl (jsLineStep lines) (Some []) [0..<length lines])"

text \<open>
  A record comes from a header when some line of the source, trimmed, is its \<open>Signature\<close>
  and is matched by one of the patterns with the record's \<open>Name\<close> as the first group.
\<close>

definition matchesName :: "regex \<Rightarrow> string \<Rightarrow> string \<Rightarrow> bool" where
  "matchesName re line name =
     (case FindStringSubmatch re line of None \<Rightarrow> False | Some m \<Rightarrow> m 1 = name)"

definition fromHeader :: "regex list \<Rightarrow> string list \<Rightarrow> FunctionSignature \<Rightarrow> bool" where
  "fromHeader res lines r =
     list_ex (\<lambda>i. Signature r = TrimSpace (lines ! i) \<and>
                  list_ex (\<lambda>re. matchesName re (TrimSpace (lines ! i)) (Name r)) res)
       [0..<length lines]"

text \<open>A pattern finds a private header on a line when it matches with a name starting with \<open>_\<close>.\<close>

definition privateMatch :: "regex \<Rightarrow> string \<Rightarrow> bool" where
  "privateMatch re line =
     (case FindStringSubmatch re line of None \<Rightarrow> False | Some m \<Rightarrow> HasPrefix (m 1) ''_'')"

definition noMatch :: "regex \<Rightarrow> string \<Rightarrow> bool" where
  "noMatch re line = (FindStringSubmatch re line = None)"

text \<open>
  The records of a scan are sound when each has a name that does not start with \<open>_\<close> and
  comes from a header.
\<close>

definition headerRecords :: "regex list \<Rightarrow> string list \<Rightarrow> FunctionSignature list \<Rightarrow> bool"
  where
  "headerRecords res lines sigs =
     (\<forall>r\<in>set sigs. \<not> HasPrefix (Name r) ''_'' \<and> fromHeader res lines r)"

text \<open>Every header that the patterns find in the lines is private.\<close>

definition onlyPrivate :: "regex list \<Rightarrow> string list \<Rightarrow> bool" where
  "onlyPrivate res lines =
     list_all (\<lambda>l. list_all (\<lambda>re. noMatch re (TrimSpace l) \<or> privateMatch re (TrimSpace l)) res)
       lines"


section \<open>Requests and results\<close>

text \<open>
  The arguments of a request are a Go \<open>map[string]any\<close> read from JSON.  A value is
  modelled by its JSON form; a number keeps its token, as no handler reads one.  An object
  lists its members in the order in which \<open>json.Marshal\<close> writes them.
\<close>

datatype json =
    JNull
  | JBool bool
  | JNumber string
  | JString string
  | JArray "json list"
  | JObject "(string \<times> json) list"

type_synonym arguments = "string \<rightharpoonup> json"

text \<open>
  \<open>mcp.NewToolResultError\<close> and \<open>mcp.NewToolResultText\<close>.  The text of a result is
  the rendering of a value (by \<open>json.MarshalIndent\<close>, or the file content itself); the
  model keeps the value.
\<close>

datatype 'a CallToolResult = ToolResultError string | ToolResultText 'a

text \<open>\<open>RequiredParam[string]\<close>: \<open>Inl\<close> carries the message of the error.\<close>

definition RequiredParam :: "arguments \<Rightarrow> string \<Rightarrow> string + string" where
  "RequiredParam args p =
     (case args p of
        None \<Rightarrow> Inl (''missing required parameter: '' @ p)
      | Some (JString val) \<Rightarrow>
          if val = [] then Inl (''missing required parameter: '' @ p) else Inr val
      | Some _ \<Rightarrow> Inl (''parameter '' @ p @ '' is not of type string''))"

section \<open>Signature extraction facade\<close>

text \<open>
  The extractors return a nil error, and \<open>json.MarshalIndent\<close> does not fail on a slice
  of \<open>FunctionSignature\<close>, so the two branches \<open>err != nil\<close> after the switch are never
  taken.  \<open>None\<close> is a panic of the JavaScript/TypeScript extractor.
\<close>

definition handleExtractSignatures ::
  "arguments \<Rightarrow> FunctionSignature list CallToolResult option" where
  "handleExtractSignatures args =
     (case RequiredParam args ''code'' of
        Inl err \<Rightarrow> Some (ToolResultError err)
      | Inr code \<Rightarrow>
          (case RequiredParam args ''language'' of
             Inl err \<Rightarrow> Some (ToolResultError err)
           | Inr language \<Rightarrow>
               if language = ''python''
               then Some (ToolResultText (extractPythonSignatures code))
               else if language = ''javascript'' \<or> language = ''typescript''
               then map_option ToolResultText (extractJavaScriptSignatures code)
               else Some (ToolResultError (''unsupported language: '' @ language))))"

section \<open>Tool schema assembly\<close>

text \<open>A nil map is \<open>None\<close>; a nil and an empty \<open>Required\<close> slice are both \<open>[]\<close>.\<close>

record FunctionDescriptor =
  descName :: string
  descDescription :: string
  descParameters :: "(string \<times> json) list option"
  descRequired :: "string list"

record FunctionDef =
  defName :: string
  defDescription :: string
  defParameters :: "(string \<times> json) list option"

record ToolDefinition =
  toolType :: string
  toolFunction :: FunctionDef

subsection \<open>Decoding the descriptors\<close>

text \<open>
  \<open>json.Unmarshal\<close> into \<open>[]FunctionDescriptor\<close>.  A member of an object is stored in
  the field whose name equals its key, or equals it after case folding; other members are
  ignored; a field without a member keeps its zero value.  \<open>null\<close> leaves a string
  unchanged and sets a map or a slice to nil.  A value of another kind than its target is a
  type error; the first one is returned.

  \<open>foldKey\<close> capitalises the ASCII letters and replaces the two runes that fold to an
  ASCII letter, U+017F and U+212A.
\<close>

definition upperASCII :: "char \<Rightarrow> char" where
  "upperASCII c =
     (case map_of (zip ''abcdefghijklmnopqrstuvwxyz'' ''ABCDEFGHIJKLMNOPQRSTUVWXYZ'') c of
        None \<Rightarrow> c
      | Some u \<Rightarrow> u)"

function foldKey :: "string \<Rightarrow> string" where
  "foldKey s =
     (if s = [] then []
      else if prefix [CHR 0xC5, CHR 0xBF] s then CHR ''S'' # foldKey (drop 2 s)
      else if prefix [CHR 0xE2, CHR 0x84, CHR 0xAA] s then CHR ''K'' # foldKey (drop 3 s)
      else upperASCII (hd s) # foldKey (tl s))"
  by pat_completeness auto
termination
  by (relation "measure length") auto

declare foldKey.simps [simp del]

datatype field = FieldName | FieldDescription | FieldParameters | FieldRequired

definition fieldOf :: "string \<Rightarrow> field option" where
  "fieldOf key =
     (let k = foldKey key in
      if k = ''NAME'' then Some FieldName
      else if k = ''DESCRIPTION'' then Some FieldDescription
      else if k = ''PARAMETERS'' then Some FieldParameters
      else if k = ''REQUIRED'' then Some FieldRequired
      else None)"

fun kindOf :: "json \<Rightarrow> string" where
  "kindOf JNull = ''null''"
| "kindOf (JBool b) = ''bool''"
| "kindOf (JNumber n) = ''number''"
| "kindOf (JString s) = ''string''"
| "kindOf (JArray xs) = ''array''"
| "kindOf (JObject kvs) = ''object''"

text \<open>The message of an \<open>UnmarshalTypeError\<close>, for a struct field or for a value.\<close>

definition typeError :: "json \<Rightarrow> string \<Rightarrow> string \<Rightarrow> string" where
  "typeError v fld ty =
     (if fld = [] then ''json: cannot unmarshal '' @ kindOf v @ '' into Go value of type '' @ ty
      else ''json: cannot unmarshal '' @ kindOf v @ '' into Go struct field FunctionDescriptor.''
             @ fld @ '' of type '' @ ty)"

text \<open>Storing a member in a map: an entry with the same key is overwritten.\<close>

fun assign :: "string \<Rightarrow> json \<Rightarrow> (string \<times> json) list \<Rightarrow> (string \<times> json) list" where
  "assign k v [] = [(k, v)]"
| "assign k v (e # m) = (if fst e = k then (k, v) # m else e # assign k v m)"

fun decodeStrings :: "json list \<Rightarrow> string + string list" where
  "decodeStrings [] = Inr []"
| "decodeStrings (x # xs) =
     (case x of
        JString s \<Rightarrow> (case decodeStrings xs of Inl e \<Rightarrow> Inl e | Inr ss \<Rightarrow> Inr (s # ss))
      | JNull \<Rightarrow> (case decodeStrings xs of Inl e \<Rightarrow> Inl e | Inr ss \<Rightarrow> Inr ([] # ss))
      | _ \<Rightarrow> Inl (typeError x ''required'' ''string''))"

definition setField :: "string \<Rightarrow> json \<Rightarrow> FunctionDescriptor \<Rightarrow> string + FunctionDescriptor"
  where
  "setField key v d =
     (case fieldOf key of
        None \<Rightarrow> Inr d
      | Some FieldName \<Rightarrow>
          (case v of
             JString s \<Rightarrow> Inr (d\<lparr>descName := s\<rparr>)
           | JNull \<Rightarrow> Inr d
           | _ \<Rightarrow> Inl (typeError v ''name'' ''string''))
      | Some FieldDescription \<Rightarrow>
          (case v of
             JString s \<Rightarrow> Inr (d\<lparr>descDescription := s\<rparr>)
           | JNull \<Rightarrow> Inr d
           | _ \<Rightarrow> Inl (typeError v ''description'' ''string''))
      | Some FieldParameters \<Rightarrow>
          (case v of
             JObject kvs \<Rightarrow>
               Inr (d\<lparr>descParameters :=
                        Some (foldl (\<lambda>m kv. assign (fst kv) (snd kv) m)
                                (case descParameters d of None \<Rightarrow> [] | Some m \<Rightarrow> m) kvs)\<rparr>)
           | JNull \<Rightarrow> Inr (d\<lparr>descParameters := None\<rparr>)
           | _ \<Rightarrow> Inl (typeError v ''parameters'' ''map[string]interface {}''))
      | Some FieldRequired \<Rightarrow>
          (case v of
             JArray xs \<Rightarrow>
               (case decodeStrings xs of
                  Inl e \<Rightarrow> Inl e
                | Inr ss \<Rightarrow> Inr (d\<lparr>descRequired := ss\<rparr>))
           | JNull \<Rightarrow> Inr (d\<lparr>descRequired := []\<rparr>)
           | _ \<Rightarrow> Inl (typeError v ''required'' ''[]string'')))"

fun decodeFields :: "(string \<times> json) list \<Rightarrow> FunctionDescriptor \<Rightarrow> string + FunctionDescriptor"
  where
  "decodeFields [] d = Inr d"
| "decodeFields (kv # kvs) d =
     (case setField (fst kv) (snd kv) d of
        Inl e \<Rightarrow> Inl e
      | Inr d' \<Rightarrow> decodeFields kvs d')"

definition zeroDescriptor :: FunctionDescriptor where
  "zeroDescriptor =
     \<lparr>descName = [], descDescription = [], descParameters = None, descRequired = []\<rparr>"

definition decodeDescriptor :: "json \<Rightarrow> string + FunctionDescriptor" where
  "decodeDescriptor v =
     (case v of
        JObject kvs \<Rightarrow> decodeFields kvs zeroDescriptor
      | JNull \<Rightarrow> Inr zeroDescriptor
      | _ \<Rightarrow> Inl (typeError v [] ''repository.FunctionDescriptor''))"

fun decodeAll :: "json list \<Rightarrow> string + FunctionDescriptor list" where
  "decodeAll [] = Inr []"
| "decodeAll (x # xs) =
     (case decodeDescriptor x of
        Inl e \<Rightarrow> Inl e
      | Inr d \<Rightarrow> (case decodeAll xs of Inl e \<Rightarrow> Inl e | Inr ds \<Rightarrow> Inr (d # ds)))"

definition Unmarshal :: "json \<Rightarrow> string + FunctionDescriptor list" where
  "Unmarshal v =
     (case v of
        JArray xs \<Rightarrow> decodeAll xs
      | JNull \<Rightarrow> Inr []
      | _ \<Rightarrow> Inl (typeError v [] ''[]repository.FunctionDescriptor''))"

subsection \<open>The assembler\<close>

definition mkTool :: "FunctionDescriptor \<Rightarrow> ToolDefinition" where
  "mkTool fn =
     \<lparr>toolType = ''function'',
      toolFunction = \<lparr>defName = descName fn, defDescription = descDescription fn,
                      defParameters = descParameters fn\<rparr>\<rparr>"

definition zeroTool :: ToolDefinition where
  "zeroTool =
     \<lparr>toolType = [],
      toolFunction = \<lparr>defName = [], defDescription = [], defParameters = None\<rparr>\<rparr>"

text \<open>
  \<open>tools := make([]ToolDefinition, len(functions))\<close>, then the loop that stores at each
  index \<open>i\<close>.
\<close>

definition buildTools :: "FunctionDescriptor list \<Rightarrow> ToolDefinition list" where
  "buildTools functions =
     foldl (\<lambda>tools i. tools[i := mkTool (functions ! i)])
       (replicate (length functions) zeroTool) [0..<length functions]"

text \<open>
  \<open>json.Marshal\<close> of a value read from JSON and \<open>json.MarshalIndent\<close> of the tools do
  not fail; their error branches are never taken.
\<close>

definition handleEmitToolJSON :: "arguments \<Rightarrow> ToolDefinition list CallToolResult" where
  "handleEmitToolJSON args =
     (case args ''functions'' of
        None \<Rightarrow> ToolResultError ''functions parameter is required''
      | Some functionsParam \<Rightarrow>
          (case Unmarshal functionsParam of
             Inl err \<Rightarrow> ToolResultError (''failed to unmarshal functions: '' @ err)
           | Inr functions \<Rightarrow>
               if length functions = 0
               then ToolResultError ''functions parameter cannot be empty''
               else ToolResultText (buildTools functions)))"


section \<open>File content\<close>

text \<open>
  The operating system as the handler sees it: the result of \<open>os.Getwd\<close> and of
  \<open>os.ReadFile\<close> at each path, \<open>Inl\<close> carrying the message of an error.  Paths are those
  of a Unix system.
\<close>

record OS =
  Getwd :: "string + string"
  ReadFile :: "string \<Rightarrow> string + string"

text \<open>
  \<open>filepath.Clean\<close>: empty elements and \<open>.\<close> are dropped; \<open>..\<close> removes the element
  before it, is dropped at the root, and is kept where a relative path starts.  The
  elements kept so far are held last first.
\<close>

fun cleanStep :: "bool \<Rightarrow> string list \<Rightarrow> string \<Rightarrow> string list" where
  "cleanStep rooted out e =
     (if e = [] \<or> e = ''.'' then out
      else if e = ''..'' then
        (case out of
           [] \<Rightarrow> if rooted then [] else [''..'']
         | e1 # below \<Rightarrow> if e1 = ''..'' then ''..'' # out else below)
      else e # out)"

definition filepath_IsAbs :: "string \<Rightarrow> bool" where
  "filepath_IsAbs p = HasPrefix p ''/''"

definition filepath_Clean :: "string \<Rightarrow> string" where
  "filepath_Clean p =
     (if p = [] then ''.''
      else
        let rooted = filepath_IsAbs p;
            out = rev (foldl (cleanStep rooted) [] (Split p CHR ''/''))
        in if rooted then ''/'' @ Join out ''/''
           else if out = [] then ''.'' else Join out ''/'')"

text \<open>\<open>filepath.Join\<close>: the elements from the first non-empty one on, joined and cleaned.\<close>

definition filepath_Join :: "string list \<Rightarrow> string" where
  "filepath_Join elem =
     (case dropWhile (\<lambda>e. e = []) elem of
        [] \<Rightarrow> []
      | e # es \<Rightarrow> filepath_Clean (Join (e # es) ''/''))"

definition filepath_Abs :: "OS \<Rightarrow> string \<Rightarrow> string + string" where
  "filepath_Abs os p =
     (if filepath_IsAbs p then Inr (filepath_Clean p)
      else (case Getwd os of
              Inl err \<Rightarrow> Inl err
            | Inr wd \<Rightarrow> Inr (filepath_Join [wd, p])))"

definition handleGetFileContent :: "OS \<Rightarrow> arguments \<Rightarrow> string CallToolResult" where
  "handleGetFileContent os args =
     (case RequiredParam args ''path'' of
        Inl err \<Rightarrow> ToolResultError err
      | Inr path \<Rightarrow>
          (case Getwd os of
             Inl err \<Rightarrow> ToolResultError (''failed to get working directory: '' @ err)
           | Inr repoRoot \<Rightarrow>
               let fullPath = filepath_Join [repoRoot, path] in
               (case filepath_Abs os fullPath of
                  Inl err \<Rightarrow> ToolResultError (''failed to resolve path: '' @ err)
                | Inr cleanPath \<Rightarrow>
                    (case filepath_Abs os repoRoot of
                       Inl err \<Rightarrow>
                         ToolResultError (''failed to resolve repository root: '' @ err)
                     | Inr cleanRepoRoot \<Rightarrow>
                         if \<not> HasPrefix cleanPath cleanRepoRoot
                         then ToolResultError ''path is outside repository bounds''
                         else
                           (case ReadFile os cleanPath of
                              Inl err \<Rightarrow> ToolResultError (''failed to read file: '' @ err)
                            | Inr content \<Rightarrow> ToolResultText content)))))"

text \<open>
  A path lies within a directory when the elements of the directory are the first elements
  of the path.
\<close>

definition pathElements :: "string \<Rightarrow> string list" where
  "pathElements p = filter (\<lambda>e. e \<noteq> []) (Split p CHR ''/'')"

definition withinRoot :: "string \<Rightarrow> string \<Rightarrow> bool" where
  "withinRoot root p = prefix (pathElements root) (pathElements p)"


section \<open>Properties of the parameter normalisers\<close>

lemma pyParamStep_default:
  "pyRetained tok \<longrightarrow> Contains (TrimSpace tok) ''='' \<Longrightarrow> snd (pyParamStep st tok) = snd st"
  by (simp add: pyParamStep_def pyRetained_def Let_def)

lemma jsParamStep_default:
  "jsRetained tok \<longrightarrow> Contains (TrimSpace tok) ''='' \<Longrightarrow> snd (jsParamStep st tok) = snd st"
  by (simp add: jsParamStep_def jsRetained_def Let_def)

lemma pyLoop_default:
  "\<forall>tok\<in>set toks. pyRetained tok \<longrightarrow> Contains (TrimSpace tok) ''=''
   \<Longrightarrow> snd (foldl pyParamStep st toks) = snd st"
  by (induction toks arbitrary: st) (simp_all add: pyParamStep_default)

lemma jsLoop_default:
  "\<forall>tok\<in>set toks. jsRetained tok \<longrightarrow> Contains (TrimSpace tok) ''=''
   \<Longrightarrow> snd (foldl jsParamStep st toks) = snd st"
  by (induction toks arbitrary: st) (simp_all add: jsParamStep_default)

text \<open>
  Claim C5.  In both normalisers, when every token of the parameter list that the loop
  keeps contains a \<open>=\<close>, the returned list of required parameters is empty.
\<close>

theorem required_empty_when_all_defaults:
  "((\<forall>tok\<in>set (Split params CHR '',''). pyRetained tok \<longrightarrow> Contains (TrimSpace tok) ''='')
      \<longrightarrow> snd (parsePythonParameters params) = []) \<and>
   ((\<forall>tok\<in>set (Split params CHR '',''). jsRetained tok \<longrightarrow> Contains (TrimSpace tok) ''='')
      \<longrightarrow> snd (parseJavaScriptParameters params) = [])"
  by (simp add: parsePythonParameters_def parseJavaScriptParameters_def mkSchema_def
      pyLoop_default jsLoop_default)

theorem required_empty_when_all_defaults_witness:
  "snd (parsePythonParameters ''self, a = 1, b: int = 2, *args'') = [] \<and>
   snd (parseJavaScriptParameters ''self, a = 1, b: int = 2, *args'') \<noteq> [] \<and>
   snd (parseJavaScriptParameters ''a = 1, b: number = 2, ...rest'') = []"
proof -
  have py: "\<forall>tok\<in>set (Split ''self, a = 1, b: int = 2, *args'' CHR '','').
              pyRetained tok \<longrightarrow> Contains (TrimSpace tok) ''=''"
    by code_simp
  have js: "\<forall>tok\<in>set (Split ''a = 1, b: number = 2, ...rest'' CHR '','').
              jsRetained tok \<longrightarrow> Contains (TrimSpace tok) ''=''"
    by code_simp
  have n: "snd (parseJavaScriptParameters ''self, a = 1, b: int = 2, *args'') \<noteq> []"
    by code_simp
  from py js n show ?thesis
    using required_empty_when_all_defaults [of "''self, a = 1, b: int = 2, *args''"]
      required_empty_when_all_defaults [of "''a = 1, b: number = 2, ...rest''"]
    by blast
qed

lemma pyStep_variadic: "pyVariadic tok \<Longrightarrow> pyParamStep st tok = st"
  by (simp add: pyParamStep_def pyVariadic_def Let_def)

lemma jsStep_variadic: "jsVariadic tok \<Longrightarrow> jsParamStep st tok = st"
  by (simp add: jsParamStep_def jsVariadic_def Let_def)

lemma pyLoop_variadic:
  "foldl pyParamStep st (filter (\<lambda>t. \<not> pyVariadic t) toks) = foldl pyParamStep st toks"
  by (induction toks arbitrary: st) (simp_all add: pyStep_variadic)

lemma jsLoop_variadic:
  "foldl jsParamStep st (filter (\<lambda>t. \<not> jsVariadic t) toks) = foldl jsParamStep st toks"
  by (induction toks arbitrary: st) (simp_all add: jsStep_variadic)

lemma TrimSpace_Nil: "TrimSpace [] = []"
  by code_simp

lemma parsePy_loop:
  "parsePythonParameters params =
     mkSchema (foldl pyParamStep (Map.empty, []) (Split params CHR '',''))"
  by (cases "params = []") (simp_all add: parsePythonParameters_def pyParamStep_def TrimSpace_Nil)

lemma parseJs_loop:
  "parseJavaScriptParameters params =
     mkSchema (foldl jsParamStep (Map.empty, []) (Split params CHR '',''))"
  by (cases "params = []") (simp_all add: parseJavaScriptParameters_def jsParamStep_def TrimSpace_Nil)

lemma find_Some_mem: "find P xs = Some x \<Longrightarrow> x \<in> set xs"
  by (induction xs) (auto split: if_splits)

lemma leadWidth_zero:
  "[] \<notin> set rs \<Longrightarrow> leadWidth rs s = 0 \<longleftrightarrow> (\<forall>r\<in>set rs. \<not> prefix r s)"
proof (cases "find (\<lambda>r. prefix r s) rs")
  case None
  then have "\<forall>r\<in>set rs. \<not> prefix r s" by (simp add: find_None_iff)
  with None show ?thesis by (simp add: leadWidth_def)
next
  case (Some r)
  assume ne: "[] \<notin> set rs"
  from Some have "r \<in> set rs" by (rule find_Some_mem)
  with ne have "r \<noteq> []" by auto
  moreover from Some have "\<not> (\<forall>r\<in>set rs. \<not> prefix r s)"
    by (metis find_None_iff option.distinct(1))
  ultimately show ?thesis using Some by (simp add: leadWidth_def)
qed

lemma trimLead_suffix: "suffix (trimLead rs s) s"
proof (induction rs s rule: trimLead.induct)
  case (1 rs s)
  show ?case
  proof (cases "leadWidth rs s = 0 \<or> s = []")
    case True
    then show ?thesis by (simp add: trimLead.simps)
  next
    case False
    with 1 have "suffix (trimLead rs (drop (leadWidth rs s) s)) (drop (leadWidth rs s) s)"
      by simp
    moreover have "trimLead rs s = trimLead rs (drop (leadWidth rs s) s)"
      using False by (subst trimLead.simps) simp
    ultimately show ?thesis
      by (metis suffix_drop suffix_order.trans)
  qed
qed

lemma trimLead_no_lead:
  "[] \<notin> set rs \<Longrightarrow> r \<in> set rs \<Longrightarrow> \<not> prefix r (trimLead rs s)"
proof (induction rs s rule: trimLead.induct)
  case (1 rs s)
  show ?case
  proof (cases "leadWidth rs s = 0 \<or> s = []")
    case True
    then have eq: "trimLead rs s = s" by (simp add: trimLead.simps)
    from True show ?thesis
    proof
      assume "leadWidth rs s = 0"
      with 1(2,3) eq show ?thesis by (simp add: leadWidth_zero)
    next
      assume "s = []"
      with 1(2,3) eq show ?thesis by auto
    qed
  next
    case False
    then have "trimLead rs s = trimLead rs (drop (leadWidth rs s) s)"
      by (subst trimLead.simps) simp
    with 1 False show ?thesis by simp
  qed
qed

lemma trimLead_id: "leadWidth rs s = 0 \<Longrightarrow> trimLead rs s = s"
  by (simp add: trimLead.simps)

lemma spaceRunes_nonempty: "[] \<notin> set spaceRunes"
  by (simp add: spaceRunes_def)

lemma TrimRightSpace_prefix: "prefix (TrimRightSpace s) s"
proof -
  have "suffix (trimLead (map rev spaceRunes) (rev s)) (rev s)"
    by (rule trimLead_suffix)
  then show ?thesis
    by (simp add: TrimRightSpace_def suffix_to_prefix)
qed

lemma TrimSpace_no_lead: "r \<in> set spaceRunes \<Longrightarrow> \<not> prefix r (TrimSpace s)"
proof
  assume r: "r \<in> set spaceRunes" and p: "prefix r (TrimSpace s)"
  from p have "prefix r (TrimLeftSpace s)"
    unfolding TrimSpace_def using TrimRightSpace_prefix prefix_order.trans by blast
  with r show False
    by (simp add: TrimLeftSpace_def trimLead_no_lead spaceRunes_nonempty)
qed

lemma TrimSpace_take_prefix: "prefix (TrimSpace (take k (TrimSpace s))) (TrimSpace s)"
proof -
  have "\<forall>r\<in>set spaceRunes. \<not> prefix r (take k (TrimSpace s))"
    using TrimSpace_no_lead take_is_prefix prefix_order.trans by blast
  then have "TrimLeftSpace (take k (TrimSpace s)) = take k (TrimSpace s)"
    by (simp add: TrimLeftSpace_def trimLead_id leadWidth_zero spaceRunes_nonempty)
  then have "prefix (TrimSpace (take k (TrimSpace s))) (take k (TrimSpace s))"
    by (simp add: TrimSpace_def TrimRightSpace_prefix)
  then show ?thesis
    using take_is_prefix prefix_order.trans by blast
qed

lemma pyName_prefix:
  "prefix (case Index (TrimSpace tok) '':'' of Some idx \<Rightarrow> TrimSpace (take idx (TrimSpace tok))
           | None \<Rightarrow> TrimSpace tok) (TrimSpace tok)"
  by (simp add: TrimSpace_take_prefix split: option.splits)

lemma pyStep_markerFree: "markerFree ''*'' st \<Longrightarrow> markerFree ''*'' (pyParamStep st tok)"
proof -
  assume inv: "markerFree ''*'' st"
  let ?n = "case Index (TrimSpace tok) '':'' of Some idx \<Rightarrow> TrimSpace (take idx (TrimSpace tok))
           | None \<Rightarrow> TrimSpace tok"
  have "\<not> HasPrefix (TrimSpace tok) ''*'' \<Longrightarrow> \<not> HasPrefix ?n ''*''"
    unfolding HasPrefix_def using pyName_prefix [of tok] prefix_order.trans by blast
  with inv show ?thesis
    by (auto simp: pyParamStep_def markerFree_def Let_def)
qed

lemma TrimSuffix_prefix: "prefix (TrimSuffix s p) s"
  by (simp add: TrimSuffix_def take_is_prefix)

lemma jsStep_markerFree: "markerFree ''...'' st \<Longrightarrow> markerFree ''...'' (jsParamStep st tok)"
proof -
  assume inv: "markerFree ''...'' st"
  let ?n = "case Index (TrimSpace tok) '':'' of Some idx \<Rightarrow> TrimSpace (take idx (TrimSpace tok))
           | None \<Rightarrow> TrimSpace tok"
  have a: "\<not> HasPrefix (TrimSpace tok) ''...'' \<Longrightarrow> \<not> HasPrefix ?n ''...''"
    unfolding HasPrefix_def using pyName_prefix [of tok] prefix_order.trans by blast
  have b: "\<not> HasPrefix (TrimSpace tok) ''...'' \<Longrightarrow> \<not> HasPrefix (TrimSuffix ?n ''?'') ''...''"
    using a unfolding HasPrefix_def using TrimSuffix_prefix prefix_order.trans by blast
  from inv a b show ?thesis
    by (auto simp: jsParamStep_def markerFree_def Let_def)
qed

lemma pyLoop_markerFree:
  "markerFree ''*'' st \<Longrightarrow> markerFree ''*'' (foldl pyParamStep st toks)"
  by (induction toks arbitrary: st) (simp_all add: pyStep_markerFree)

lemma jsLoop_markerFree:
  "markerFree ''...'' st \<Longrightarrow> markerFree ''...'' (foldl jsParamStep st toks)"
  by (induction toks arbitrary: st) (simp_all add: jsStep_markerFree)

lemma markerFree_init: "markerFree m (Map.empty, [])"
  by (simp add: markerFree_def)

text \<open>
  Claim C6.  A variadic token (starting with \<open>*\<close> in Python, with \<open>...\<close> in
  JavaScript/TypeScript) contributes nothing: the result is the one computed from the token
  list with the variadic tokens deleted, and no key of \<open>properties\<close> and no entry of the
  required list starts with the marker.
\<close>

theorem variadic_tokens_contribute_nothing:
  "parsePythonParameters params =
     mkSchema (foldl pyParamStep (Map.empty, [])
                 (filter (\<lambda>t. \<not> pyVariadic t) (Split params CHR '',''))) \<and>
   parseJavaScriptParameters params =
     mkSchema (foldl jsParamStep (Map.empty, [])
                 (filter (\<lambda>t. \<not> jsVariadic t) (Split params CHR '',''))) \<and>
   (\<forall>k\<in>dom (schema_properties (fst (parsePythonParameters params))). \<not> HasPrefix k ''*'') \<and>
   (\<forall>r\<in>set (snd (parsePythonParameters params)). \<not> HasPrefix r ''*'') \<and>
   (\<forall>k\<in>dom (schema_properties (fst (parseJavaScriptParameters params))).
      \<not> HasPrefix k ''...'') \<and>
   (\<forall>r\<in>set (snd (parseJavaScriptParameters params)). \<not> HasPrefix r ''...'')"
proof -
  have py: "markerFree ''*'' (foldl pyParamStep (Map.empty, []) (Split params CHR '',''))"
    by (rule pyLoop_markerFree [OF markerFree_init])
  have js: "markerFree ''...'' (foldl jsParamStep (Map.empty, []) (Split params CHR '',''))"
    by (rule jsLoop_markerFree [OF markerFree_init])
  from py js show ?thesis
    by (simp add: parsePy_loop parseJs_loop pyLoop_variadic jsLoop_variadic mkSchema_def
        markerFree_def)
qed

theorem variadic_tokens_contribute_nothing_witness:
  "snd (parsePythonParameters ''name: str, *args, **kwargs'') = [''name''] \<and>
   schema_properties (fst (parsePythonParameters ''name: str, *args, **kwargs'')) ''*args'' = None \<and>
   schema_properties (fst (parsePythonParameters ''name: str, *args, **kwargs'')) ''name'' \<noteq> None \<and>
   snd (parseJavaScriptParameters ''a, ...rest'') = [''a''] \<and>
   schema_properties (fst (parseJavaScriptParameters ''a, ...rest'')) ''...rest'' = None \<and>
   schema_properties (fst (parseJavaScriptParameters ''a, ...rest'')) ''a'' \<noteq> None"
proof -
  have p1: "snd (parsePythonParameters ''name: str, *args, **kwargs'') = [''name'']"
    by code_simp
  have p2: "schema_properties (fst (parsePythonParameters ''name: str, *args, **kwargs'')) ''name'' \<noteq> None"
    by code_simp
  have j1: "snd (parseJavaScriptParameters ''a, ...rest'') = [''a'']"
    by code_simp
  have j2: "schema_properties (fst (parseJavaScriptParameters ''a, ...rest'')) ''a'' \<noteq> None"
    by code_simp
  have h1: "HasPrefix ''*args'' ''*''" and h2: "HasPrefix ''...rest'' ''...''"
    by (simp_all add: HasPrefix_def)
  from h1 have p3:
    "schema_properties (fst (parsePythonParameters ''name: str, *args, **kwargs'')) ''*args'' = None"
    using variadic_tokens_contribute_nothing [of "''name: str, *args, **kwargs''"]
    by (meson domIff)
  from h2 have j3:
    "schema_properties (fst (parseJavaScriptParameters ''a, ...rest'')) ''...rest'' = None"
    using variadic_tokens_contribute_nothing [of "''a, ...rest''"]
    by (meson domIff)
  from p1 p2 p3 j1 j2 j3 show ?thesis by blast
qed

section \<open>Properties of the backward comment scan\<close>

lemma jsdocLoop_scan:
  "n \<le> length lines \<Longrightarrow> jsdocLoop lines n acc = jsdocScan (rev (take n lines)) acc"
proof (induction n arbitrary: acc)
  case 0
  then show ?case by simp
next
  case (Suc i)
  then have "rev (take (Suc i) lines) = lines ! i # rev (take i lines)"
    by (simp add: take_Suc_conv_app_nth)
  with Suc show ?case by (simp add: Let_def)
qed

lemma jsdocScan_blank:
  "jsdocScan (filter (\<lambda>l. \<not> blankLine l) xs) acc = jsdocScan xs acc"
  by (induction xs arbitrary: acc) (simp_all add: blankLine_def Let_def)

lemma jsdocScan_stop:
  "nonCommentLine l \<Longrightarrow> jsdocScan (xs @ l # ys) acc = jsdocScan xs acc"
proof (induction xs arbitrary: acc)
  case Nil
  then have "\<not> HasPrefix (TrimSpace l) ''*/''"
    by (auto simp: nonCommentLine_def HasPrefix_def prefix_def)
  with Nil show ?case by (simp add: nonCommentLine_def Let_def)
next
  case (Cons x xs)
  then show ?case by (simp add: Let_def)
qed

lemma extract_scan:
  "n \<le> length lines \<Longrightarrow>
     extractJSDocComment lines n = Some (Join (jsdocScan (rev (take n lines)) []) '' '')"
  by (simp add: extractJSDocComment_def jsdocLoop_scan)

lemma extract_blank:
  assumes "n \<le> length lines"
  shows "extractJSDocComment (filter (\<lambda>l. \<not> blankLine l) (take n lines))
           (length (filter (\<lambda>l. \<not> blankLine l) (take n lines)))
         = extractJSDocComment lines n"
proof -
  let ?ys = "filter (\<lambda>l. \<not> blankLine l) (take n lines)"
  have "extractJSDocComment ?ys (length ?ys) = Some (Join (jsdocScan (rev ?ys) []) '' '')"
    by (simp add: extract_scan)
  also have "rev ?ys = filter (\<lambda>l. \<not> blankLine l) (rev (take n lines))"
    by (simp add: rev_filter)
  finally show ?thesis
    using assms by (simp add: jsdocScan_blank extract_scan)
qed

lemma take_split:
  assumes "i < n" "n \<le> length lines"
  shows "take n lines = take i lines @ lines ! i # take (n - Suc i) (drop (Suc i) lines)"
proof -
  have "take n lines = take i (take n lines) @ drop i (take n lines)"
    by (rule append_take_drop_id [symmetric])
  also have "take i (take n lines) = take i lines"
    using assms by (simp add: min_def)
  also have "drop i (take n lines) = take (n - i) (drop i lines)"
    by (simp add: drop_take)
  also have "drop i lines = lines ! i # drop (Suc i) lines"
    using assms by (simp add: Cons_nth_drop_Suc)
  also have "take (n - i) (lines ! i # drop (Suc i) lines)
               = lines ! i # take (n - Suc i) (drop (Suc i) lines)"
  proof -
    from assms have "n - i = Suc (n - Suc i)" by arith
    then show ?thesis by simp
  qed
  finally show ?thesis .
qed

lemma extract_stop:
  assumes "i < n" "n \<le> length lines" "nonCommentLine (lines ! i)"
  shows "extractJSDocComment lines n = extractJSDocComment (drop (Suc i) lines) (n - Suc i)"
proof -
  let ?below = "take (n - Suc i) (drop (Suc i) lines)"
  have "rev (take n lines) = rev ?below @ lines ! i # rev (take i lines)"
    using assms by (simp add: take_split)
  then have "jsdocScan (rev (take n lines)) [] = jsdocScan (rev ?below) []"
    using assms(3) by (simp add: jsdocScan_stop)
  moreover have "n - Suc i \<le> length (drop (Suc i) lines)"
    using assms by simp
  ultimately show ?thesis
    using assms by (simp add: extract_scan)
qed

lemma jsdocScan_all_blank:
  "\<forall>l\<in>set xs. blankLine l \<Longrightarrow> jsdocScan (xs @ ys) acc = jsdocScan ys acc"
  by (induction xs arbitrary: acc) (simp_all add: blankLine_def Let_def)

lemma below_blank:
  assumes "i < n" "n \<le> length lines" "\<forall>j. i < j \<and> j < n \<longrightarrow> blankLine (lines ! j)"
  shows "\<forall>l\<in>set (rev (take (n - Suc i) (drop (Suc i) lines))). blankLine l"
proof -
  { fix l assume "l \<in> set (take (n - Suc i) (drop (Suc i) lines))"
    then obtain k where k: "k < n - Suc i" "k < length (drop (Suc i) lines)"
        and l: "l = drop (Suc i) lines ! k"
      by (auto simp: in_set_conv_nth)
    then have "l = lines ! (Suc i + k)" using assms by simp
    with k assms have "blankLine l" by simp }
  then show ?thesis by simp
qed

lemma extract_first_nonblank:
  assumes "i < n" "n \<le> length lines" "\<forall>j. i < j \<and> j < n \<longrightarrow> blankLine (lines ! j)"
  shows "extractJSDocComment lines n
         = Some (Join (jsdocScan (lines ! i # rev (take i lines)) []) '' '')"
proof -
  let ?below = "take (n - Suc i) (drop (Suc i) lines)"
  have "rev (take n lines) = rev ?below @ lines ! i # rev (take i lines)"
    using assms by (simp add: take_split)
  then show ?thesis
    using assms below_blank [OF assms] by (simp add: extract_scan jsdocScan_all_blank)
qed

lemma nonComment_empty:
  assumes "i < n" "n \<le> length lines" "\<forall>j. i < j \<and> j < n \<longrightarrow> blankLine (lines ! j)"
    "nonCommentLine (lines ! i)"
  shows "extractJSDocComment lines n = Some []"
proof -
  have "jsdocScan ([] @ lines ! i # rev (take i lines)) [] = jsdocScan [] []"
    using assms(4) by (rule jsdocScan_stop)
  then show ?thesis
    using extract_first_nonblank [OF assms(1-3)] by simp
qed


lemma trimLead_keeps_tail:
  assumes "ys \<noteq> []" "\<forall>r\<in>set rs. hd ys \<notin> set r"
  shows "\<exists>xs'. trimLead rs (xs @ ys) = xs' @ ys"
proof (induction "length xs" arbitrary: xs rule: less_induct)
  case less
  show ?case
  proof (cases "leadWidth rs (xs @ ys) = 0 \<or> xs @ ys = []")
    case True
    then have "trimLead rs (xs @ ys) = xs @ ys" by (simp add: trimLead.simps)
    then show ?thesis by blast
  next
    case False
    then obtain r where r: "find (\<lambda>r. prefix r (xs @ ys)) rs = Some r"
      by (auto simp: leadWidth_def split: option.splits)
    then have w: "leadWidth rs (xs @ ys) = length r" by (simp add: leadWidth_def)
    from r have mem: "r \<in> set rs" by (rule find_Some_mem)
    from r have pre: "prefix r (xs @ ys)" by (auto simp: find_Some_iff)
    have le: "length r \<le> length xs"
    proof (rule ccontr)
      assume "\<not> length r \<le> length xs"
      then have lt: "length xs < length r" by simp
      from pre obtain zs where zs: "xs @ ys = r @ zs" by (auto simp: prefix_def)
      have "(xs @ ys) ! length xs = hd ys"
        using assms(1) by (simp add: hd_conv_nth nth_append)
      moreover have "(r @ zs) ! length xs = r ! length xs"
        using lt by (simp add: nth_append)
      ultimately have "r ! length xs = hd ys" using zs by simp
      then have "hd ys \<in> set r" using lt by (metis nth_mem)
      with mem assms(2) show False by blast
    qed
    from False w have pos: "0 < length r" by simp
    with le have "length xs - length r < length xs" by arith
    then have "length (drop (length r) xs) < length xs" by simp
    from less [OF this] obtain xs' where "trimLead rs (drop (length r) xs @ ys) = xs' @ ys"
      by blast
    moreover have "trimLead rs (xs @ ys) = trimLead rs (drop (length r) (xs @ ys))"
      using False w assms(1) by (subst trimLead.simps) simp
    ultimately show ?thesis using le by auto
  qed
qed

lemma TrimSpace_keeps_close: "\<exists>xs'. TrimSpace (doc @ ''*/'') = xs' @ ''*/''"
proof -
  have "\<forall>r\<in>set spaceRunes. hd ''*/'' \<notin> set r"
    by (simp add: spaceRunes_def)
  then obtain xs' where l: "TrimLeftSpace (doc @ ''*/'') = xs' @ ''*/''"
    unfolding TrimLeftSpace_def using trimLead_keeps_tail [of "''*/''" spaceRunes doc] by blast
  have "leadWidth (map rev spaceRunes) (CHR ''/'' # CHR ''*'' # rev xs') = 0"
    by (simp add: leadWidth_def spaceRunes_def)
  then have "TrimRightSpace (xs' @ ''*/'') = xs' @ ''*/''"
    by (simp add: TrimRightSpace_def trimLead_id)
  with l show ?thesis by (simp add: TrimSpace_def)
qed

lemma jsdocScan_one_line:
  assumes "TrimSpace l = ''/**'' @ doc @ ''*/''"
  shows "jsdocScan (l # up) acc = acc"
proof -
  obtain xs' where "TrimSpace (doc @ ''*/'') = xs' @ ''*/''"
    using TrimSpace_keeps_close by blast
  then have "HasSuffix (TrimSpace (drop 3 (TrimSpace l))) ''*/''"
    using assms by (simp add: HasSuffix_def suffix_def)
  then show ?thesis
    using assms by (simp add: Let_def HasPrefix_def)
qed


lemma close_is_star: "HasPrefix t ''*/'' \<Longrightarrow> HasPrefix t ''*''"
  by (auto simp: HasPrefix_def prefix_def)

lemma opener_not_star: "HasPrefix t ''/**'' \<Longrightarrow> \<not> HasPrefix t ''*''"
  by (auto simp: HasPrefix_def prefix_def)

lemma jsdocScan_gathered: "jsdocScan up acc = gathered up @ acc"
proof (induction up arbitrary: acc)
  case Nil
  then show ?case by (simp add: gathered_def stopContent_def)
next
  case (Cons l up)
  show ?case
  proof (cases "passLine l")
    case True
    then have g: "gathered (l # up) = gathered up @ starContent l"
      by (simp add: gathered_def)
    from True have "jsdocScan (l # up) acc = jsdocScan up (starContent l @ acc)"
      by (auto simp: passLine_def starContent_def Let_def dest: close_is_star)
    with Cons g show ?thesis by simp
  next
    case False
    then have g: "gathered (l # up) = openerContent l"
      by (simp add: gathered_def stopContent_def)
    from False have "jsdocScan (l # up) acc = openerContent l @ acc"
      by (auto simp: passLine_def openerContent_def Let_def dest: close_is_star)
    with g show ?thesis by simp
  qed
qed

lemma extract_gathered:
  "n \<le> length lines \<Longrightarrow>
     extractJSDocComment lines n = Some (Join (gathered (rev (take n lines))) '' '')"
  by (simp add: extract_scan jsdocScan_gathered)

lemma Join_empty: "[] \<notin> set ys \<Longrightarrow> Join ys sep = [] \<longleftrightarrow> ys = []"
  by (induction ys sep rule: Join.induct) auto

lemma starContent_nonempty: "[] \<notin> set (starContent l)"
  by (simp add: starContent_def Let_def)

lemma openerContent_nonempty: "[] \<notin> set (openerContent l)"
  by (simp add: openerContent_def Let_def)

lemma gathered_nonempty: "[] \<notin> set (gathered up)"
  by (auto simp: gathered_def stopContent_def starContent_nonempty openerContent_nonempty
      split: list.splits)

lemma gathered_empty:
  "gathered up = [] \<longleftrightarrow>
     (\<forall>l\<in>set (takeWhile passLine up). starContent l = []) \<and>
     stopContent (dropWhile passLine up) = []"
  by (auto simp: gathered_def)

lemma extract_empty_iff:
  assumes "n \<le> length lines"
  shows "extractJSDocComment lines n = Some [] \<longleftrightarrow>
           (\<forall>l\<in>set (takeWhile passLine (rev (take n lines))). starContent l = []) \<and>
           stopContent (dropWhile passLine (rev (take n lines))) = []"
  using assms
  by (simp add: extract_gathered Join_empty [OF gathered_nonempty] gathered_empty)

lemma no_block_no_star:
  assumes "n \<le> length lines"
    and "\<forall>l\<in>set (take n lines). starContent l = [] \<and> \<not> HasPrefix (TrimSpace l) ''/**''"
  shows "extractJSDocComment lines n = Some []"
proof -
  let ?up = "rev (take n lines)"
  have a: "\<forall>l\<in>set (takeWhile passLine ?up). starContent l = []"
    using assms(2) by (auto dest: set_takeWhileD)
  have "\<forall>l\<in>set (dropWhile passLine ?up). \<not> HasPrefix (TrimSpace l) ''/**''"
    using assms(2) by (auto dest: set_dropWhileD)
  then have b: "stopContent (dropWhile passLine ?up) = []"
  proof (cases "dropWhile passLine ?up")
    case Nil
    then show ?thesis by (simp only: stopContent_def list.case)
  next
    case (Cons l rest)
    moreover assume "\<forall>l\<in>set (dropWhile passLine ?up). \<not> HasPrefix (TrimSpace l) ''/**''"
    ultimately have "\<not> HasPrefix (TrimSpace l) ''/**''" by simp
    then have "openerContent l = []" by (simp add: openerContent_def)
    with Cons show ?thesis by (simp only: stopContent_def list.case)
  qed
  from a b show ?thesis by (simp add: extract_empty_iff [OF assms(1)])
qed

text \<open>
  Claim C7, as amended.  Scanning upwards from the line above the header: deleting the blank
  lines leaves the description unchanged; a non-comment line stops the scan, so that the
  lines at and above it are not read and what was gathered below it is kept; the description
  is the content of the \<open>*\<close> lines passed, top line first, after the content of the
  \<open>/**\<close> line if the scan ends at one, joined by spaces; it is empty exactly when the scan
  gathers no content, and so whenever no line above the header starts with \<open>/**\<close> and no
  \<open>*\<close> line has content.
\<close>

theorem backward_scan_blank_and_stop:
  "(n \<le> length lines \<longrightarrow>
      extractJSDocComment (filter (\<lambda>l. \<not> blankLine l) (take n lines))
        (length (filter (\<lambda>l. \<not> blankLine l) (take n lines)))
      = extractJSDocComment lines n) \<and>
   (i < n \<and> n \<le> length lines \<and> nonCommentLine (lines ! i) \<longrightarrow>
      extractJSDocComment lines n = extractJSDocComment (drop (Suc i) lines) (n - Suc i)) \<and>
   (n \<le> length lines \<longrightarrow>
      extractJSDocComment lines n = Some (Join (gathered (rev (take n lines))) '' '')) \<and>
   (n \<le> length lines \<longrightarrow>
      (extractJSDocComment lines n = Some [] \<longleftrightarrow>
         (\<forall>l\<in>set (takeWhile passLine (rev (take n lines))). starContent l = []) \<and>
         stopContent (dropWhile passLine (rev (take n lines))) = [])) \<and>
   (n \<le> length lines \<and>
    (\<forall>l\<in>set (take n lines). starContent l = [] \<and> \<not> HasPrefix (TrimSpace l) ''/**'') \<longrightarrow>
      extractJSDocComment lines n = Some [])"
proof (intro conjI impI)
  assume "n \<le> length lines"
  then show "extractJSDocComment (filter (\<lambda>l. \<not> blankLine l) (take n lines))
               (length (filter (\<lambda>l. \<not> blankLine l) (take n lines)))
             = extractJSDocComment lines n"
    by (rule extract_blank)
next
  assume "i < n \<and> n \<le> length lines \<and> nonCommentLine (lines ! i)"
  then show "extractJSDocComment lines n
             = extractJSDocComment (drop (Suc i) lines) (n - Suc i)"
    by (simp add: extract_stop)
next
  assume "n \<le> length lines"
  then show "extractJSDocComment lines n = Some (Join (gathered (rev (take n lines))) '' '')"
    by (rule extract_gathered)
next
  assume "n \<le> length lines"
  then show "extractJSDocComment lines n = Some [] \<longleftrightarrow>
               (\<forall>l\<in>set (takeWhile passLine (rev (take n lines))). starContent l = []) \<and>
               stopContent (dropWhile passLine (rev (take n lines))) = []"
    by (rule extract_empty_iff)
next
  assume "n \<le> length lines \<and>
    (\<forall>l\<in>set (take n lines). starContent l = [] \<and> \<not> HasPrefix (TrimSpace l) ''/**'')"
  then show "extractJSDocComment lines n = Some []"
    by (simp add: no_block_no_star)
qed

theorem backward_scan_blank_and_stop_witness:
  "extractJSDocComment [''/**'', '' * Adds.'', '''', '' */'', ''function add(a, b) {''] 4
     = Some ''Adds.'' \<and>
   extractJSDocComment [''/** Lost.'', ''let x = 1;'', '' * Kept.'', ''function f() {''] 3
     = Some ''Kept.'' \<and>
   extractJSDocComment
     [''/** Sums'', '' * two'', '''', '' * numbers.'', '' */'', ''function add(a, b) {''] 5
     = Some ''Sums two numbers.'' \<and>
   extractJSDocComment [''let x = 1;'', '' *'', '' */'', ''function f() {''] 3 = Some []"
proof -
  let ?a = "[''/**'', '' * Adds.'', '''', '' */'', ''function add(a, b) {'']"
  let ?b = "[''/** Lost.'', ''let x = 1;'', '' * Kept.'', ''function f() {'']"
  let ?c = "[''/** Sums'', '' * two'', '''', '' * numbers.'', '' */'', ''function add(a, b) {'']"
  let ?d = "[''let x = 1;'', '' *'', '' */'', ''function f() {'']"
  have a1: "4 \<le> length ?a" by simp
  have a2: "filter (\<lambda>l. \<not> blankLine l) (take 4 ?a) = [''/**'', '' * Adds.'', '' */'']"
    by code_simp
  have a3: "extractJSDocComment [''/**'', '' * Adds.'', '' */'']
              (length [''/**'', '' * Adds.'', '' */'']) = Some ''Adds.''"
    by code_simp
  from a1 have "extractJSDocComment (filter (\<lambda>l. \<not> blankLine l) (take 4 ?a))
                  (length (filter (\<lambda>l. \<not> blankLine l) (take 4 ?a)))
                = extractJSDocComment ?a 4"
    using backward_scan_blank_and_stop [of 4 ?a 0] by blast
  with a3 have ra: "extractJSDocComment ?a 4 = Some ''Adds.''"
    unfolding a2 by (simp only:)
  have b1: "(1::nat) < 3 \<and> 3 \<le> length ?b \<and> nonCommentLine (?b ! 1)" by code_simp
  have b2: "extractJSDocComment (drop (Suc 1) ?b) (3 - Suc 1) = Some ''Kept.''" by code_simp
  from b1 have "extractJSDocComment ?b 3
                  = extractJSDocComment (drop (Suc 1) ?b) (3 - Suc 1)"
    using backward_scan_blank_and_stop [of 3 ?b 1] by blast
  with b2 have rb: "extractJSDocComment ?b 3 = Some ''Kept.''"
    by (simp only:)
  have c1: "5 \<le> length ?c" by simp
  have c2: "Join (gathered (rev (take 5 ?c))) '' '' = ''Sums two numbers.''" by code_simp
  from c1 have "extractJSDocComment ?c 5 = Some (Join (gathered (rev (take 5 ?c))) '' '')"
    using backward_scan_blank_and_stop [of 5 ?c 0] by blast
  then have rc: "extractJSDocComment ?c 5 = Some ''Sums two numbers.''"
    unfolding c2 .
  have d1: "3 \<le> length ?d \<and>
            (\<forall>l\<in>set (take 3 ?d). starContent l = [] \<and> \<not> HasPrefix (TrimSpace l) ''/**'')"
    by code_simp
  then have rd: "extractJSDocComment ?d 3 = Some []"
    using backward_scan_blank_and_stop [of 3 ?d 0] by blast
  from ra rb rc rd show ?thesis by (simp only: simp_thms)
qed



text \<open>
  The claim as first stated fails: the scan below meets no line starting with \<open>/**\<close> and
  is stopped by a non-comment line, yet the content of the \<open>*\<close> line it passed is returned.
\<close>

theorem orphan_comment_lines_counterexample:
  "nonCommentLine ''total = price'' \<and>
   \<not> HasPrefix (TrimSpace ''total = price'') ''/**'' \<and>
   \<not> HasPrefix (TrimSpace ''  * quantity;'') ''/**'' \<and>
   extractJSDocComment [''total = price'', ''  * quantity;'', ''function f() {}''] 2
     = Some ''quantity;''"
  by code_simp

text \<open>
  Claim C10.  When the first non-blank line above the header is a comment opened and closed
  on one line, \<open>/** ... */\<close>, the description is the empty string.
\<close>

theorem one_line_jsdoc_discarded:
  assumes "i < n" "n \<le> length lines"
    and "\<forall>j. i < j \<and> j < n \<longrightarrow> blankLine (lines ! j)"
    and "TrimSpace (lines ! i) = ''/**'' @ doc @ ''*/''"
  shows "extractJSDocComment lines n = Some []"
  using extract_first_nonblank [OF assms(1-3)] jsdocScan_one_line [OF assms(4)]
  by simp

theorem one_line_jsdoc_discarded_witness:
  "extractJSDocComment [''  /** Adds two numbers. */'', '''', ''function add(a, b) {''] 2
     = Some []"
proof -
  let ?ls = "[''  /** Adds two numbers. */'', '''', ''function add(a, b) {'']"
  have h1: "(0::nat) < 2" and h2: "2 \<le> length ?ls" by simp_all
  have h3: "\<forall>j. (0::nat) < j \<and> j < 2 \<longrightarrow> blankLine (?ls ! j)"
  proof (intro allI impI)
    fix j :: nat assume "0 < j \<and> j < 2"
    then have "j = 1" by arith
    moreover have "blankLine (?ls ! 1)" by code_simp
    ultimately show "blankLine (?ls ! j)" by simp
  qed
  have h4: "TrimSpace (?ls ! 0) = ''/**'' @ '' Adds two numbers. '' @ ''*/''"
    by code_simp
  show ?thesis
    by (rule one_line_jsdoc_discarded [OF h1 h2 h3 h4])
qed


section \<open>The privacy filter of the scanners\<close>

lemma fromHeaderI:
  assumes "i < length lines" "re \<in> set res"
    and "FindStringSubmatch re (TrimSpace (lines ! i)) = Some m"
    and "Name r = m 1" "Signature r = TrimSpace (lines ! i)"
  shows "fromHeader res lines r"
proof -
  from assms(3,4) have "matchesName re (TrimSpace (lines ! i)) (Name r)"
    by (simp add: matchesName_def)
  with assms(1,2,5) show ?thesis
    unfolding fromHeader_def list_ex_iff by (metis atLeast0LessThan lessThan_iff set_upt)
qed

lemma headerRecords_snoc:
  "headerRecords res lines sigs \<Longrightarrow> \<not> HasPrefix (Name r) ''_'' \<Longrightarrow> fromHeader res lines r
     \<Longrightarrow> headerRecords res lines (sigs @ [r])"
  by (simp add: headerRecords_def)

lemma pyClassPart_sound:
  assumes "headerRecords [pyFuncRe, pyClassRe] lines sigs" "i < length lines"
  shows "headerRecords [pyFuncRe, pyClassRe] lines
           (pyClassPart lines i (TrimSpace (lines ! i)) sigs)"
proof (cases "FindStringSubmatch pyClassRe (TrimSpace (lines ! i))")
  case None
  with assms(1) show ?thesis by (simp add: pyClassPart_def)
next
  case (Some m)
  show ?thesis
  proof (cases "HasPrefix (m 1) ''_''")
    case True
    with Some assms(1) show ?thesis by (simp add: pyClassPart_def)
  next
    case False
    let ?r = "\<lparr>Name = m 1, Type = ''class'', Signature = TrimSpace (lines ! i),
               Description = extractPythonDocstring lines (i + 1),
               Parameters = None, Required = []\<rparr>"
    have "fromHeader [pyFuncRe, pyClassRe] lines ?r"
      by (rule fromHeaderI [OF assms(2) _ Some]) simp_all
    with assms(1) False have "headerRecords [pyFuncRe, pyClassRe] lines (sigs @ [?r])"
      by (simp add: headerRecords_snoc)
    with Some False show ?thesis by (simp add: pyClassPart_def Let_def)
  qed
qed

lemma pyLineStep_sound:
  assumes "headerRecords [pyFuncRe, pyClassRe] lines sigs" "i < length lines"
  shows "headerRecords [pyFuncRe, pyClassRe] lines (pyLineStep lines sigs i)"
proof (cases "FindStringSubmatch pyFuncRe (TrimSpace (lines ! i))")
  case None
  with pyClassPart_sound [OF assms] show ?thesis by (simp add: pyLineStep_def)
next
  case (Some m)
  show ?thesis
  proof (cases "HasPrefix (m 1) ''_''")
    case True
    with Some assms(1) show ?thesis by (simp add: pyLineStep_def)
  next
    case False
    let ?r = "\<lparr>Name = m 1, Type = ''function'', Signature = TrimSpace (lines ! i),
               Description = extractPythonDocstring lines (i + 1),
               Parameters = Some (fst (parsePythonParameters (m 2))),
               Required = snd (parsePythonParameters (m 2))\<rparr>"
    have "fromHeader [pyFuncRe, pyClassRe] lines ?r"
      by (rule fromHeaderI [OF assms(2) _ Some]) simp_all
    with assms(1) False have "headerRecords [pyFuncRe, pyClassRe] lines (sigs @ [?r])"
      by (simp add: headerRecords_snoc)
    from pyClassPart_sound [OF this assms(2)] Some False show ?thesis
      by (simp add: pyLineStep_def Let_def)
  qed
qed

lemma pyLoop_sound:
  "headerRecords [pyFuncRe, pyClassRe] lines sigs \<Longrightarrow> \<forall>i\<in>set is. i < length lines
     \<Longrightarrow> headerRecords [pyFuncRe, pyClassRe] lines (foldl (pyLineStep lines) sigs is)"
  by (induction "is" arbitrary: sigs) (simp_all add: pyLineStep_sound)

lemma jsdoc_defined: "i \<le> length lines \<Longrightarrow> \<exists>d. extractJSDocComment lines i = Some d"
  by (simp add: extractJSDocComment_def)

lemma jsClassPart_sound:
  assumes "headerRecords [jsFuncRe, jsArrowRe, jsClassRe] lines sigs" "i < length lines"
  shows "\<exists>sigs'. jsClassPart lines i (TrimSpace (lines ! i)) sigs = Some sigs' \<and>
                 headerRecords [jsFuncRe, jsArrowRe, jsClassRe] lines sigs'"
proof -
  from assms(2) obtain d where d: "extractJSDocComment lines i = Some d"
    using jsdoc_defined [of i lines] by auto
  show ?thesis
  proof (cases "FindStringSubmatch jsClassRe (TrimSpace (lines ! i))")
    case None
    with assms(1) show ?thesis by (simp add: jsClassPart_def)
  next
    case (Some m)
    show ?thesis
    proof (cases "HasPrefix (m 1) ''_''")
      case True
      with Some assms(1) show ?thesis by (simp add: jsClassPart_def)
    next
      case False
      let ?r = "\<lparr>Name = m 1, Type = ''class'', Signature = TrimSpace (lines ! i),
                 Description = d, Parameters = None, Required = []\<rparr>"
      have "fromHeader [jsFuncRe, jsArrowRe, jsClassRe] lines ?r"
        by (rule fromHeaderI [OF assms(2) _ Some]) simp_all
      with assms(1) False
      have "headerRecords [jsFuncRe, jsArrowRe, jsClassRe] lines (sigs @ [?r])"
        by (simp add: headerRecords_snoc)
      with Some False d show ?thesis by (simp add: jsClassPart_def Let_def)
    qed
  qed
qed

lemma jsArrowPart_sound:
  assumes "headerRecords [jsFuncRe, jsArrowRe, jsClassRe] lines sigs" "i < length lines"
  shows "\<exists>sigs'. jsArrowPart lines i (TrimSpace (lines ! i)) sigs = Some sigs' \<and>
                 headerRecords [jsFuncRe, jsArrowRe, jsClassRe] lines sigs'"
proof -
  from assms(2) obtain d where d: "extractJSDocComment lines i = Some d"
    using jsdoc_defined [of i lines] by auto
  show ?thesis
  proof (cases "FindStringSubmatch jsArrowRe (TrimSpace (lines ! i))")
    case None
    with jsClassPart_sound [OF assms] show ?thesis by (simp add: jsArrowPart_def)
  next
    case (Some m)
    show ?thesis
    proof (cases "HasPrefix (m 1) ''_''")
      case True
      with Some assms(1) show ?thesis by (simp add: jsArrowPart_def)
    next
      case False
      let ?r = "\<lparr>Name = m 1, Type = ''function'', Signature = TrimSpace (lines ! i),
                 Description = d,
                 Parameters = Some (fst (parseJavaScriptParameters (m 2))),
                 Required = snd (parseJavaScriptParameters (m 2))\<rparr>"
      have "fromHeader [jsFuncRe, jsArrowRe, jsClassRe] lines ?r"
        by (rule fromHeaderI [OF assms(2) _ Some]) simp_all
      with assms(1) False
      have "headerRecords [jsFuncRe, jsArrowRe, jsClassRe] lines (sigs @ [?r])"
        by (simp add: headerRecords_snoc)
      from jsClassPart_sound [OF this assms(2)] Some False d show ?thesis
        by (simp add: jsArrowPart_def Let_def)
    qed
  qed
qed

lemma jsFuncPart_sound:
  assumes "headerRecords [jsFuncRe, jsArrowRe, jsClassRe] lines sigs" "i < length lines"
  shows "\<exists>sigs'. jsFuncPart lines i (TrimSpace (lines ! i)) sigs = Some sigs' \<and>
                 headerRecords [jsFuncRe, jsArrowRe, jsClassRe] lines sigs'"
proof -
  from assms(2) obtain d where d: "extractJSDocComment lines i = Some d"
    using jsdoc_defined [of i lines] by auto
  show ?thesis
  proof (cases "FindStringSubmatch jsFuncRe (TrimSpace (lines ! i))")
    case None
    with jsArrowPart_sound [OF assms] show ?thesis by (simp add: jsFuncPart_def)
  next
    case (Some m)
    show ?thesis
    proof (cases "HasPrefix (m 1) ''_''")
      case True
      with Some assms(1) show ?thesis by (simp add: jsFuncPart_def)
    next
      case False
      let ?r = "\<lparr>Name = m 1, Type = ''function'', Signature = TrimSpace (lines ! i),
                 Description = d,
                 Parameters = Some (fst (parseJavaScriptParameters (m 2))),
                 Required = snd (parseJavaScriptParameters (m 2))\<rparr>"
      have "fromHeader [jsFuncRe, jsArrowRe, jsClassRe] lines ?r"
        by (rule fromHeaderI [OF assms(2) _ Some]) simp_all
      with assms(1) False
      have "headerRecords [jsFuncRe, jsArrowRe, jsClassRe] lines (sigs @ [?r])"
        by (simp add: headerRecords_snoc)
      from jsArrowPart_sound [OF this assms(2)] Some False d show ?thesis
        by (simp add: jsFuncPart_def Let_def)
    qed
  qed
qed

lemma jsLoop_sound:
  "headerRecords [jsFuncRe, jsArrowRe, jsClassRe] lines sigs \<Longrightarrow> n \<le> length lines \<Longrightarrow>
     \<exists>sigs'. foldl (jsLineStep lines) (Some sigs) [0..<n] = Some sigs' \<and>
             headerRecords [jsFuncRe, jsArrowRe, jsClassRe] lines sigs'"
proof (induction n)
  case 0
  then show ?case by simp
next
  case (Suc n)
  then obtain s1 where s1: "foldl (jsLineStep lines) (Some sigs) [0..<n] = Some s1"
      and p1: "headerRecords [jsFuncRe, jsArrowRe, jsClassRe] lines s1"
    by auto
  from Suc.prems have "n < length lines" by simp
  from jsFuncPart_sound [OF p1 this]
  have "\<exists>sigs'. jsLineStep lines (Some s1) n = Some sigs' \<and>
                headerRecords [jsFuncRe, jsArrowRe, jsClassRe] lines sigs'"
    by (simp add: jsLineStep_def)
  with s1 show ?case by simp
qed

lemma pyStep_private_func:
  "privateMatch pyFuncRe (TrimSpace (lines ! i)) \<Longrightarrow> pyLineStep lines sigs i = sigs"
  by (auto simp: privateMatch_def pyLineStep_def Let_def split: option.splits)

lemma pyClass_private:
  "privateMatch pyClassRe line \<Longrightarrow> pyClassPart lines i line sigs = sigs"
  by (auto simp: privateMatch_def pyClassPart_def Let_def split: option.splits)

lemma jsStep_private_func:
  "privateMatch jsFuncRe (TrimSpace (lines ! i)) \<Longrightarrow>
     jsLineStep lines (Some sigs) i = Some sigs"
  by (auto simp: privateMatch_def jsLineStep_def jsFuncPart_def Let_def split: option.splits)

lemma jsArrow_private:
  "privateMatch jsArrowRe line \<Longrightarrow> jsArrowPart lines i line sigs = Some sigs"
  by (auto simp: privateMatch_def jsArrowPart_def Let_def split: option.splits)

lemma jsClass_private:
  "privateMatch jsClassRe line \<Longrightarrow> jsClassPart lines i line sigs = Some sigs"
  by (auto simp: privateMatch_def jsClassPart_def Let_def split: option.splits)

lemma pyClass_noMatch: "noMatch pyClassRe line \<Longrightarrow> pyClassPart lines i line sigs = sigs"
  by (simp add: noMatch_def pyClassPart_def)

lemma jsClass_noMatch: "noMatch jsClassRe line \<Longrightarrow> jsClassPart lines i line sigs = Some sigs"
  by (simp add: noMatch_def jsClassPart_def)

lemma pyStep_onlyPrivate:
  assumes "onlyPrivate [pyFuncRe, pyClassRe] lines" "i < length lines"
  shows "pyLineStep lines sigs i = sigs"
proof -
  let ?t = "TrimSpace (lines ! i)"
  from assms have f: "noMatch pyFuncRe ?t \<or> privateMatch pyFuncRe ?t"
    and c: "noMatch pyClassRe ?t \<or> privateMatch pyClassRe ?t"
    by (auto simp: onlyPrivate_def list_all_iff)
  from c have cp: "pyClassPart lines i ?t sigs = sigs"
    using pyClass_noMatch pyClass_private by blast
  from f show ?thesis
  proof
    assume "noMatch pyFuncRe ?t"
    with cp show ?thesis by (simp add: noMatch_def pyLineStep_def)
  next
    assume "privateMatch pyFuncRe ?t"
    then show ?thesis by (rule pyStep_private_func)
  qed
qed

lemma jsStep_onlyPrivate:
  assumes "onlyPrivate [jsFuncRe, jsArrowRe, jsClassRe] lines" "i < length lines"
  shows "jsLineStep lines (Some sigs) i = Some sigs"
proof -
  let ?t = "TrimSpace (lines ! i)"
  from assms have f: "noMatch jsFuncRe ?t \<or> privateMatch jsFuncRe ?t"
    and a: "noMatch jsArrowRe ?t \<or> privateMatch jsArrowRe ?t"
    and c: "noMatch jsClassRe ?t \<or> privateMatch jsClassRe ?t"
    by (auto simp: onlyPrivate_def list_all_iff)
  from c have cp: "jsClassPart lines i ?t sigs = Some sigs"
    using jsClass_noMatch jsClass_private by blast
  from a have ap: "jsArrowPart lines i ?t sigs = Some sigs"
  proof
    assume "noMatch jsArrowRe ?t"
    with cp show ?thesis by (simp add: noMatch_def jsArrowPart_def)
  next
    assume "privateMatch jsArrowRe ?t"
    then show ?thesis by (rule jsArrow_private)
  qed
  from f show ?thesis
  proof
    assume "noMatch jsFuncRe ?t"
    with ap show ?thesis by (simp add: noMatch_def jsLineStep_def jsFuncPart_def)
  next
    assume "privateMatch jsFuncRe ?t"
    then show ?thesis by (rule jsStep_private_func)
  qed
qed

lemma pyLoop_onlyPrivate:
  "onlyPrivate [pyFuncRe, pyClassRe] lines \<Longrightarrow> \<forall>i\<in>set is. i < length lines
     \<Longrightarrow> foldl (pyLineStep lines) sigs is = sigs"
  by (induction "is" arbitrary: sigs) (simp_all add: pyStep_onlyPrivate)

lemma jsLoop_onlyPrivate:
  "onlyPrivate [jsFuncRe, jsArrowRe, jsClassRe] lines \<Longrightarrow> \<forall>i\<in>set is. i < length lines
     \<Longrightarrow> foldl (jsLineStep lines) (Some sigs) is = Some sigs"
  by (induction "is" arbitrary: sigs) (simp_all add: jsStep_onlyPrivate)


text \<open>
  Claim C1.  For every source text, every record returned by the Python scanner or by the
  JavaScript/TypeScript scanner has a name that does not start with \<open>_\<close>, and that name is
  the one a pattern captures on the line the record shows as its signature.  A header with a
  name that starts with \<open>_\<close> is skipped where it is recognised: the block that finds it
  leaves the records as they were, for a function block the whole iteration does, and a
  source in which every header found is private gives no record at all.  The
  JavaScript/TypeScript scanner returns on every source text.
\<close>

theorem private_names_never_extracted:
  "(\<forall>r\<in>set (extractPythonSignatures code).
      \<not> HasPrefix (Name r) ''_'' \<and> fromHeader [pyFuncRe, pyClassRe] (Split code CHR 0x0A) r) \<and>
   (\<exists>sigs. extractJavaScriptSignatures code = Some sigs \<and>
           (\<forall>r\<in>set sigs. \<not> HasPrefix (Name r) ''_'' \<and>
              fromHeader [jsFuncRe, jsArrowRe, jsClassRe] (Split code CHR 0x0A) r)) \<and>
   (privateMatch pyFuncRe (TrimSpace (lines ! i)) \<longrightarrow> pyLineStep lines sigs i = sigs) \<and>
   (privateMatch pyClassRe line \<longrightarrow> pyClassPart lines i line sigs = sigs) \<and>
   (privateMatch jsFuncRe (TrimSpace (lines ! i)) \<longrightarrow>
      jsLineStep lines (Some sigs) i = Some sigs) \<and>
   (privateMatch jsArrowRe line \<longrightarrow> jsArrowPart lines i line sigs = Some sigs) \<and>
   (privateMatch jsClassRe line \<longrightarrow> jsClassPart lines i line sigs = Some sigs) \<and>
   (onlyPrivate [pyFuncRe, pyClassRe] (Split code CHR 0x0A) \<longrightarrow>
      extractPythonSignatures code = []) \<and>
   (onlyPrivate [jsFuncRe, jsArrowRe, jsClassRe] (Split code CHR 0x0A) \<longrightarrow>
      extractJavaScriptSignatures code = Some [])"
proof -
  let ?ls = "Split code CHR 0x0A"
  have idx: "\<forall>i\<in>set [0..<length ?ls]. i < length ?ls" by simp
  have e: "headerRecords res ?ls []" for res by (simp add: headerRecords_def)
  have "headerRecords [pyFuncRe, pyClassRe] ?ls (extractPythonSignatures code)"
    using pyLoop_sound [OF e idx] by (simp add: extractPythonSignatures_def Let_def)
  then have py: "\<forall>r\<in>set (extractPythonSignatures code).
      \<not> HasPrefix (Name r) ''_'' \<and> fromHeader [pyFuncRe, pyClassRe] ?ls r"
    by (simp add: headerRecords_def)
  have "\<exists>sigs. extractJavaScriptSignatures code = Some sigs \<and>
          headerRecords [jsFuncRe, jsArrowRe, jsClassRe] ?ls sigs"
    using jsLoop_sound [OF e, of "length ?ls"]
    by (simp add: extractJavaScriptSignatures_def Let_def)
  then have js: "\<exists>sigs. extractJavaScriptSignatures code = Some sigs \<and>
           (\<forall>r\<in>set sigs. \<not> HasPrefix (Name r) ''_'' \<and>
              fromHeader [jsFuncRe, jsArrowRe, jsClassRe] ?ls r)"
    by (simp add: headerRecords_def)
  have pyp: "onlyPrivate [pyFuncRe, pyClassRe] ?ls \<longrightarrow> extractPythonSignatures code = []"
    using pyLoop_onlyPrivate [OF _ idx]
    by (simp add: extractPythonSignatures_def Let_def)
  have jsp: "onlyPrivate [jsFuncRe, jsArrowRe, jsClassRe] ?ls \<longrightarrow>
               extractJavaScriptSignatures code = Some []"
    using jsLoop_onlyPrivate [OF _ idx]
    by (simp add: extractJavaScriptSignatures_def Let_def)
  from py js pyp jsp show ?thesis
    using pyStep_private_func [of lines i sigs] pyClass_private [of line lines i sigs]
      jsStep_private_func [of lines i sigs] jsArrow_private [of line lines i sigs]
      jsClass_private [of line lines i sigs]
    by blast
qed

theorem private_names_never_extracted_witness:
  "map Name (extractPythonSignatures
      ''def _helper(x):\<newline>def greet(name, punct = 1):\<newline>class _Hidden:\<newline>class Person:'')
     = [''greet'', ''Person''] \<and>
   \<not> HasPrefix (Name (hd (extractPythonSignatures
      ''def _helper(x):\<newline>def greet(name, punct = 1):\<newline>class _Hidden:\<newline>class Person:''))) ''_'' \<and>
   pyLineStep [''def _helper(x):'', ''def greet(name, punct = 1):''] [] 0 = [] \<and>
   jsArrowPart [''const _secret = (key) => key;''] 0 ''const _secret = (key) => key;'' []
     = Some [] \<and>
   extractJavaScriptSignatures
      ''function _privateFunction() {}\<newline>const _secret = (key) => key;\<newline>class _Hidden {''
     = Some [] \<and>
   map_option (map Name) (extractJavaScriptSignatures
      ''function _privateFunction() {}\<newline>export const divide = (a, b) => a / b;'')
     = Some [''divide'']"
proof -
  let ?py = "''def _helper(x):\<newline>def greet(name, punct = 1):\<newline>class _Hidden:\<newline>class Person:''"
  let ?js = "''function _privateFunction() {}\<newline>export const divide = (a, b) => a / b;''"
  let ?pr = "''function _privateFunction() {}\<newline>const _secret = (key) => key;\<newline>class _Hidden {''"
  let ?l2 = "[''def _helper(x):'', ''def greet(name, punct = 1):'']"
  have p: "map Name (extractPythonSignatures ?py) = [''greet'', ''Person'']"
    by code_simp
  then have "extractPythonSignatures ?py \<noteq> []" by auto
  then have "hd (extractPythonSignatures ?py) \<in> set (extractPythonSignatures ?py)"
    by (rule hd_in_set)
  then have h: "\<not> HasPrefix (Name (hd (extractPythonSignatures ?py))) ''_''"
    using private_names_never_extracted [of ?py] by blast
  have "privateMatch pyFuncRe (TrimSpace (?l2 ! 0))" by code_simp
  then have s: "pyLineStep ?l2 [] 0 = []"
    using private_names_never_extracted [where lines = ?l2 and i = 0 and sigs = "[]"]
    by blast
  have "privateMatch jsArrowRe ''const _secret = (key) => key;''" by code_simp
  then have a: "jsArrowPart [''const _secret = (key) => key;''] 0
                  ''const _secret = (key) => key;'' [] = Some []"
    using private_names_never_extracted
      [where lines = "[''const _secret = (key) => key;'']" and i = 0 and sigs = "[]"
         and line = "''const _secret = (key) => key;''"]
    by blast
  have "onlyPrivate [jsFuncRe, jsArrowRe, jsClassRe] (Split ?pr CHR 0x0A)" by code_simp
  then have o: "extractJavaScriptSignatures ?pr = Some []"
    using private_names_never_extracted [of ?pr] by blast
  have j: "map_option (map Name) (extractJavaScriptSignatures ?js) = Some [''divide'']"
    by code_simp
  from p h s a o j show ?thesis by (simp only: simp_thms)
qed


section \<open>Properties of the handlers\<close>

lemma RequiredParam_string:
  "args p = Some (JString v) \<Longrightarrow>
     RequiredParam args p = (if v = [] then Inl (''missing required parameter: '' @ p) else Inr v)"
  by (simp add: RequiredParam_def)

text \<open>
  Claim C4, as amended.  For a language outside \<open>python\<close>, \<open>javascript\<close>,
  \<open>typescript\<close>, the call returns an error and no signatures: the error
  \<open>unsupported language: \<close> followed by the value when both the code and the language
  are non-empty, and the error of a missing required parameter when one of them is the
  empty string.
\<close>

theorem unsupported_language_rejected:
  assumes "args ''code'' = Some (JString code)"
    and "args ''language'' = Some (JString language)"
    and "language \<notin> {''python'', ''javascript'', ''typescript''}"
  shows "(code \<noteq> [] \<and> language \<noteq> [] \<longrightarrow>
            handleExtractSignatures args
              = Some (ToolResultError (''unsupported language: '' @ language))) \<and>
         (code = [] \<longrightarrow>
            handleExtractSignatures args
              = Some (ToolResultError ''missing required parameter: code'')) \<and>
         (code \<noteq> [] \<and> language = [] \<longrightarrow>
            handleExtractSignatures args
              = Some (ToolResultError ''missing required parameter: language'')) \<and>
         (\<exists>msg. handleExtractSignatures args = Some (ToolResultError msg))"
  using assms
  by (cases "code = []"; cases "language = []")
    (simp_all add: handleExtractSignatures_def RequiredParam_string)

theorem unsupported_language_rejected_witness:
  "handleExtractSignatures [''code'' \<mapsto> JString ''puts 1'', ''language'' \<mapsto> JString ''ruby'']
     = Some (ToolResultError ''unsupported language: ruby'')"
proof -
  let ?args = "[''code'' \<mapsto> JString ''puts 1'', ''language'' \<mapsto> JString ''ruby'']"
  have h1: "?args ''code'' = Some (JString ''puts 1'')" by simp
  have h2: "?args ''language'' = Some (JString ''ruby'')" by simp
  have h3: "''ruby'' \<notin> {''python'', ''javascript'', ''typescript''}" by simp
  have h4: "''puts 1'' \<noteq> [] \<and> ''ruby'' \<noteq> []" by simp
  from unsupported_language_rejected [of ?args "''puts 1''" "''ruby''", OF h1 h2 h3] h4
  have "handleExtractSignatures ?args
          = Some (ToolResultError (''unsupported language: '' @ ''ruby''))"
    by blast
  then show ?thesis by simp
qed

text \<open>
  The claim as first stated fails at the empty code string: the error names the missing
  parameter, not the language.
\<close>

theorem empty_code_counterexample:
  "''ruby'' \<notin> {''python'', ''javascript'', ''typescript''} \<and>
   handleExtractSignatures [''code'' \<mapsto> JString [], ''language'' \<mapsto> JString ''ruby'']
     = Some (ToolResultError ''missing required parameter: code'') \<and>
   handleExtractSignatures [''code'' \<mapsto> JString [], ''language'' \<mapsto> JString ''ruby'']
     \<noteq> Some (ToolResultError (''unsupported language: '' @ ''ruby''))"
  by (simp add: handleExtractSignatures_def RequiredParam_def)

text \<open>
  Claim C8.  On the empty array of descriptors the call returns the error
  \<open>functions parameter cannot be empty\<close>, and no tool definitions.
\<close>

theorem empty_descriptor_array_rejected:
  "handleEmitToolJSON (args(''functions'' \<mapsto> JArray []))
     = ToolResultError ''functions parameter cannot be empty''"
  by (simp add: handleEmitToolJSON_def Unmarshal_def)

lemma store_loop:
  "n \<le> length xs \<Longrightarrow>
     foldl (\<lambda>tools i. tools[i := f i]) xs [0..<n] = map f [0..<n] @ drop n xs"
proof (induction n)
  case 0
  then show ?case by simp
next
  case (Suc n)
  then have "n < length xs" by simp
  then have "(map f [0..<n] @ drop n xs)[n := f n] = map f [0..<n] @ (drop n xs)[0 := f n]"
    by (simp add: list_update_append)
  also have "(drop n xs)[0 := f n] = f n # drop (Suc n) xs"
    using \<open>n < length xs\<close> by (metis Cons_nth_drop_Suc list_update_code(2))
  finally show ?case using Suc by simp
qed

lemma buildTools_map: "buildTools fs = map mkTool fs"
proof -
  have "buildTools fs = map (\<lambda>i. mkTool (fs ! i)) [0..<length fs]"
    by (simp add: buildTools_def store_loop)
  also have "\<dots> = map mkTool fs"
    by (rule nth_equalityI) simp_all
  finally show ?thesis .
qed

text \<open>
  Claim C3.  On a non-empty sequence of descriptors the call returns as many tool
  definitions, the one at index \<open>n\<close> made of the name, the description and the parameters
  of the descriptor at index \<open>n\<close> under the type \<open>function\<close>; the output is the same whatever
  the \<open>required\<close> lists of the descriptors are.
\<close>

theorem tools_correspond_to_descriptors:
  assumes "args ''functions'' = Some j" and "Unmarshal j = Inr fs" and "fs \<noteq> []"
  shows "\<exists>ts. handleEmitToolJSON args = ToolResultText ts \<and>
              length ts = length fs \<and>
              (\<forall>n<length fs.
                 ts ! n = \<lparr>toolType = ''function'',
                           toolFunction = \<lparr>defName = descName (fs ! n),
                                           defDescription = descDescription (fs ! n),
                                           defParameters = descParameters (fs ! n)\<rparr>\<rparr>) \<and>
              (\<forall>q. buildTools (map (\<lambda>d. d\<lparr>descRequired := q d\<rparr>) fs) = ts)"
proof -
  have "handleEmitToolJSON args = ToolResultText (map mkTool fs)"
    using assms by (simp add: handleEmitToolJSON_def buildTools_map)
  moreover have "\<forall>q. buildTools (map (\<lambda>d. d\<lparr>descRequired := q d\<rparr>) fs) = map mkTool fs"
    by (simp add: buildTools_map mkTool_def)
  ultimately show ?thesis by (simp add: mkTool_def)
qed

theorem tools_correspond_to_descriptors_witness:
  "\<exists>ts. handleEmitToolJSON
          [''functions'' \<mapsto>
             JArray [JObject [(''description'', JString ''Greets.''), (''name'', JString ''greet''),
                              (''parameters'', JObject [(''type'', JString ''object'')]),
                              (''required'', JArray [JString ''who''])],
                     JObject [(''description'', JString ''Adds.''), (''name'', JString ''add'')]]]
          = ToolResultText ts \<and>
        length ts = 2 \<and>
        ts ! 0 = \<lparr>toolType = ''function'',
                  toolFunction = \<lparr>defName = ''greet'', defDescription = ''Greets.'',
                                  defParameters = Some [(''type'', JString ''object'')]\<rparr>\<rparr> \<and>
        ts ! 1 = \<lparr>toolType = ''function'',
                  toolFunction = \<lparr>defName = ''add'', defDescription = ''Adds.'',
                                  defParameters = None\<rparr>\<rparr>"
proof -
  let ?j = "JArray [JObject [(''description'', JString ''Greets.''), (''name'', JString ''greet''),
                              (''parameters'', JObject [(''type'', JString ''object'')]),
                              (''required'', JArray [JString ''who''])],
                     JObject [(''description'', JString ''Adds.''), (''name'', JString ''add'')]]"
  let ?fs = "[\<lparr>descName = ''greet'', descDescription = ''Greets.'',
                descParameters = Some [(''type'', JString ''object'')],
                descRequired = [''who'']\<rparr>,
              \<lparr>descName = ''add'', descDescription = ''Adds.'', descParameters = None,
                descRequired = []\<rparr>]"
  have h1: "[''functions'' \<mapsto> ?j] ''functions'' = Some ?j" by simp
  have h2: "Unmarshal ?j = Inr ?fs" by code_simp
  have h3: "?fs \<noteq> []" by simp
  from tools_correspond_to_descriptors [of "[''functions'' \<mapsto> ?j]" ?j ?fs, OF h1 h2 h3]
  obtain ts where ts: "handleEmitToolJSON [''functions'' \<mapsto> ?j] = ToolResultText ts"
      "length ts = length ?fs"
      "\<forall>n<length ?fs.
         ts ! n = \<lparr>toolType = ''function'',
                   toolFunction = \<lparr>defName = descName (?fs ! n),
                                   defDescription = descDescription (?fs ! n),
                                   defParameters = descParameters (?fs ! n)\<rparr>\<rparr>"
    by blast
  from ts(3) have "ts ! 0 = \<lparr>toolType = ''function'',
                   toolFunction = \<lparr>defName = descName (?fs ! 0),
                                   defDescription = descDescription (?fs ! 0),
                                   defParameters = descParameters (?fs ! 0)\<rparr>\<rparr>"
    by simp
  moreover from ts(3) have "ts ! 1 = \<lparr>toolType = ''function'',
                   toolFunction = \<lparr>defName = descName (?fs ! 1),
                                   defDescription = descDescription (?fs ! 1),
                                   defParameters = descParameters (?fs ! 1)\<rparr>\<rparr>"
    by simp
  ultimately show ?thesis using ts(1,2) by simp
qed








text \<open>
  Claim C9 does not hold of the code.  The containment check compares the two paths as
  strings, so a directory beside the root whose name starts with the name of the root passes:
  the path below resolves outside the root and its content is returned.
\<close>

theorem containment_check_accepts_sibling_directory:
  "filepath_Join [''/home/user/repo'', ''../repo-secrets/key.txt'']
     = ''/home/user/repo-secrets/key.txt'' \<and>
   \<not> withinRoot ''/home/user/repo'' ''/home/user/repo-secrets/key.txt'' \<and>
   handleGetFileContent
     \<lparr>Getwd = Inr ''/home/user/repo'',
      ReadFile = (\<lambda>p. if p = ''/home/user/repo-secrets/key.txt'' then Inr ''s3cret''
                      else Inl ''no such file or directory'')\<rparr>
     [''path'' \<mapsto> JString ''../repo-secrets/key.txt'']
     = ToolResultText ''s3cret''"
  by code_simp


end
